theory Spec2Isabelle
  imports Main "HOL-Library.Word" "HOL-Library.Sublist"
begin

unbundle bit_operations_syntax

section \<open>The UTXO nursery (utxonursery.go)\<close>

text \<open>
  A shallow embedding of the nursery's height-driven graduation (\<open>graduateClass\<close>), its
  sweep builder (\<open>createSweepTx\<close>, \<open>sweepCsvSpendableOutputsTxn\<close>), its ingress
  (\<open>IncubateOutputs\<close>) and the on-disk codec of kid and baby outputs.

  Go's fixed-width integers are words: \<open>uint32\<close> is \<open>32 word\<close>, \<open>uint64\<close> and
  \<open>int64\<close> (\<open>btcutil.Amount\<close>) are \<open>64 word\<close> (read signed with \<open>sint\<close> where the
  code compares amounts), \<open>uint16\<close> is \<open>16 word\<close>. Arithmetic wraps as Go's does.
\<close>

subsection \<open>Data model\<close>

type_synonym byte = "8 word"
type_synonym uint16 = "16 word"
type_synonym uint32 = "32 word"
type_synonym uint64 = "64 word"
type_synonym int64 = "64 word"

text \<open>A Go \<open>error\<close>; the code only ever inspects its message (\<open>err.Error()\<close>).\<close>

datatype error = Err string

fun Error :: "error \<Rightarrow> string" where
  "Error (Err msg) = msg"

text \<open>
  \<open>wire.OutPoint\<close>. \<open>Hash\<close> is a \<open>chainhash.Hash\<close>, a \<open>[32]byte\<close> array: a byte list
  here, of length 32 in every well-formed outpoint.
\<close>

record OutPoint =
  Hash :: "byte list"
  Index :: uint32

record TxOut =
  Value :: int64
  PkScript :: "byte list"

record TxIn =
  PreviousOutPoint :: OutPoint
  SignatureScript :: "byte list"
  Witness :: "byte list list"
  Sequence :: uint32

record MsgTx =
  Version :: uint32
  TxIn :: "TxIn list"
  TxOut :: "TxOut list"
  LockTime :: uint32

text \<open>\<open>wire.NewMsgTx\<close>, \<open>AddTxOut\<close> and \<open>AddTxIn\<close>.\<close>

definition NewMsgTx :: "uint32 \<Rightarrow> MsgTx" where
  "NewMsgTx version = \<lparr>Version = version, TxIn = [], TxOut = [], LockTime = 0\<rparr>"

definition AddTxOut :: "TxOut \<Rightarrow> MsgTx \<Rightarrow> MsgTx" where
  "AddTxOut to tx = tx\<lparr>TxOut := TxOut tx @ [to]\<rparr>"

definition AddTxIn :: "TxIn \<Rightarrow> MsgTx \<Rightarrow> MsgTx" where
  "AddTxIn ti tx = tx\<lparr>TxIn := TxIn tx @ [ti]\<rparr>"

text \<open>
  \<open>lnwallet.SignDescriptor\<close>: the nursery reads only the value of its \<open>Output\<close>; the
  rest (keys, tweaks, witness script, hash type) is carried along as opaque data.
\<close>

record SignDescriptor =
  Output :: TxOut
  Opaque :: "byte list"

type_synonym WitnessType = uint16

text \<open>
  \<open>breachedOutput\<close>, embedded in \<open>kidOutput\<close>, embedded in \<open>babyOutput\<close>: Go's struct
  embedding is record extension, so the fields and methods of the inner struct are
  those of the outer one.
\<close>

record breachedOutput =
  amt :: int64
  outpoint :: OutPoint
  witnessType :: WitnessType
  signDesc :: SignDescriptor

record kidOutput = breachedOutput +
  originChanPoint :: OutPoint
  blocksToMaturity :: uint32
  confHeight :: uint32

record babyOutput = kidOutput +
  expiry :: uint32
  timeoutTx :: MsgTx

text \<open>
  Modelled from the spec: \<open>makeBreachedOutput\<close> is declared in breacharbiter.go, which
  is not among the sources. The spec's ingress builds a kid output "from the self-output
  sign descriptor ... its amount", so the amount is the value of the descriptor's output;
  the other three fields are the arguments, as \<open>Decode\<close> names them.
\<close>

definition makeBreachedOutput ::
  "OutPoint \<Rightarrow> WitnessType \<Rightarrow> SignDescriptor \<Rightarrow> breachedOutput" where
  "makeBreachedOutput op wt sd =
     \<lparr>amt = Value (Output sd), outpoint = op, witnessType = wt, signDesc = sd\<rparr>"

definition makeKidOutput ::
  "OutPoint \<Rightarrow> OutPoint \<Rightarrow> uint32 \<Rightarrow> WitnessType \<Rightarrow> SignDescriptor \<Rightarrow> kidOutput" where
  "makeKidOutput op origin btm wt sd =
     breachedOutput.extend (makeBreachedOutput op wt sd)
       (kidOutput.fields origin btm 0)"

record OutgoingHtlcResolution =
  Expiry :: uint32
  SignedTimeoutTx :: MsgTx
  SweepSignDesc :: SignDescriptor

definition makeBabyOutput ::
  "OutPoint \<Rightarrow> OutPoint \<Rightarrow> uint32 \<Rightarrow> WitnessType \<Rightarrow> OutgoingHtlcResolution \<Rightarrow> babyOutput" where
  "makeBabyOutput op origin btm wt htlcResolution =
     kidOutput.extend (makeKidOutput op origin btm wt (SweepSignDesc htlcResolution))
       (babyOutput.fields (Expiry htlcResolution) (SignedTimeoutTx htlcResolution))"

text \<open>\<open>lnwallet.ForceCloseSummary\<close>; \<open>SelfOutputSignDesc\<close> is a pointer that may be nil.\<close>

record ForceCloseSummary =
  ChanPoint :: OutPoint
  SelfOutpoint :: OutPoint
  SelfOutputMaturity :: uint32
  SelfOutputSignDesc :: "SignDescriptor option"
  HtlcResolutions :: "OutgoingHtlcResolution list"

subsection \<open>Collaborators, persistent store and nursery state\<close>

text \<open>
  Where \<open>strings.Contains(s, substr)\<close> looks for \<open>substr\<close> at every position of \<open>s\<close>.
\<close>

fun Contains :: "string \<Rightarrow> string \<Rightarrow> bool" where
  "Contains [] substr = (substr = [])"
| "Contains (c # s) substr = (prefix substr (c # s) \<or> Contains s substr)"

text \<open>
  The calls the nursery makes on its collaborators are recorded, in order, in a trace:
  every store call, every collaborator call, every goroutine it starts and the one
  warning of the sweep builder. A call is recorded when it is made, whatever it returns.
  \<open>caller\<close> says which routine, at which class height, published a transaction.
\<close>

type_synonym confChan = nat

datatype storeOp =
    OpFetchClass uint32
  | OpLastFinalizedHeight
  | OpFinalizeKinder uint32 "MsgTx option"
  | OpPurgeHeight uint32
  | OpIncubate "kidOutput option" "babyOutput list"

datatype caller = SweepGraduatingKinders uint32 | SweepCribOutput uint32

datatype event =
    EWarnf WitnessType
  | EStore storeOp
  | EGenSweepScript
  | EEstimateFeePerWeight uint32
  | EBuildWitness nat
  | EPublishTransaction caller MsgTx
  | ERegisterConfirmationsNtfn "byte list" uint32 uint32
  | EGo_waitForGraduation uint32 "kidOutput list" confChan
  | EGo_waitForEnrollment babyOutput confChan
  | EGo_waitForPromotion kidOutput confChan
  | EMarkChanFullyClosed OutPoint

text \<open>
  \<open>NurseryConfig\<close>. The collaborators are functions on an environment \<open>'e\<close> that they
  may change: the wallet hands out a different script at each call, the broadcaster and
  the notifier may fail at one call and not at the next. \<open>CheckTransactionSanity\<close>
  (btcd's blockchain package) and \<open>TxHash\<close> are pure functions of the transaction.

  The constants of package lnwallet (size.go, witnessgen.go) are not among the sources
  and are parameters: the five weights and the two witness types the sweep builder knows.

  \<open>StoreEnv\<close> is the environment's part of a store call: whether the call fails, and what
  it does to the output buckets. \<open>ClassOutputs\<close> reads the KNDR and CRIB buckets of a
  height; the confirmation reactors move outputs between buckets concurrently, so the
  buckets belong to the environment.
\<close>

record 'e NurseryConfig =
  ConfDepth :: uint32
  PruningDepth :: uint32
  GenSweepScript :: "'e \<Rightarrow> (error + byte list) \<times> 'e"
  EstimateFeePerWeight :: "uint32 \<Rightarrow> 'e \<Rightarrow> uint64 \<times> 'e"
  BuildWitness :: "kidOutput \<Rightarrow> MsgTx \<Rightarrow> nat \<Rightarrow> 'e \<Rightarrow> (error + byte list list) \<times> 'e"
  PublishTransaction :: "MsgTx \<Rightarrow> 'e \<Rightarrow> error option \<times> 'e"
  RegisterConfirmationsNtfn ::
    "byte list \<Rightarrow> uint32 \<Rightarrow> uint32 \<Rightarrow> 'e \<Rightarrow> (error + confChan) \<times> 'e"
  MarkChanFullyClosed :: "OutPoint \<Rightarrow> 'e \<Rightarrow> error option \<times> 'e"
  CheckTransactionSanity :: "MsgTx \<Rightarrow> error option"
  TxHash :: "MsgTx \<Rightarrow> byte list"
  StoreEnv :: "storeOp \<Rightarrow> 'e \<Rightarrow> error option \<times> 'e"
  ClassOutputs :: "uint32 \<Rightarrow> 'e \<Rightarrow> kidOutput list \<times> babyOutput list"
  BaseSweepTxSize :: uint64
  WitnessHeaderSize :: uint64
  InputSize :: uint64
  ToLocalTimeoutWitnessSize :: uint64
  OfferedHtlcTimeoutWitnessSize :: uint64
  CommitmentTimeLock :: WitnessType
  HtlcOfferedTimeout :: WitnessType

text \<open>
  Modelled from the spec: the nursery store (interface \<open>NurseryStore\<close>, nursery_store.go)
  is not among the sources. Section 4.1 of the spec keeps, besides the buckets, "a scalar
  last_finalized_height" and "for each height H, an optional finalized sweep transaction
  FSTx(H)".
\<close>

record NurseryStore =
  lastFinalizedHeight :: uint32
  finalizedTx :: "uint32 \<Rightarrow> MsgTx option"

record 'e utxoNursery =
  currentHeight :: uint32
  store :: NurseryStore
  env :: 'e
  trace :: "event list"

text \<open>
  A routine that returns \<open>(T, error)\<close> takes the nursery and returns \<open>Inl err\<close> or
  \<open>Inr result\<close> with the nursery as it left it. \<open>bindE\<close> is Go's
  \<open>if err != nil { return err }\<close>.
\<close>

type_synonym ('a, 'e) routine = "'e utxoNursery \<Rightarrow> (error + 'a) \<times> 'e utxoNursery"

definition ret :: "'a \<Rightarrow> ('a, 'e) routine" where
  "ret a s = (Inr a, s)"

definition bindE :: "('a, 'e) routine \<Rightarrow> ('a \<Rightarrow> ('b, 'e) routine) \<Rightarrow> ('b, 'e) routine" where
  "bindE m f s = (case m s of (Inl err, s') \<Rightarrow> (Inl err, s') | (Inr a, s') \<Rightarrow> f a s')"

definition emit :: "event \<Rightarrow> 'e utxoNursery \<Rightarrow> 'e utxoNursery" where
  "emit ev s = s\<lparr>trace := trace s @ [ev]\<rparr>"

text \<open>A call of a collaborator: recorded, then run on the environment.\<close>

definition call :: "event \<Rightarrow> ('e \<Rightarrow> 'r \<times> 'e) \<Rightarrow> 'e utxoNursery \<Rightarrow> 'r \<times> 'e utxoNursery" where
  "call ev f s = (case f (env s) of (r, e') \<Rightarrow> (r, (emit ev s)\<lparr>env := e'\<rparr>))"

definition orFail :: "error option \<times> 'e utxoNursery \<Rightarrow> (error + unit) \<times> 'e utxoNursery" where
  "orFail rs = (case rs of (Some err, s) \<Rightarrow> (Inl err, s) | (None, s) \<Rightarrow> (Inr (), s))"

subsection \<open>The store's operations\<close>

text \<open>
  Modelled from the spec (section 4.1): "Each operation is a single transactional unit";
  a failed call leaves the finalization record as it was.
  \<^item> \<open>FetchClass(H) \<rightarrow> (FSTx(H)?, kids_at_H, babies_at_H)\<close>;
  \<^item> \<open>FinalizeKinder(H, tx?)\<close> "writes FSTx(H) := tx (may be nil if no kids at H) and sets
    LFH := max(LFH, H)";
  \<^item> \<open>PurgeHeight(H)\<close> "drops FSTx(H) and all GRAD entries at H";
  \<^item> \<open>Incubate\<close> writes buckets only.
\<close>

definition storeCall :: "'e NurseryConfig \<Rightarrow> storeOp \<Rightarrow> (unit, 'e) routine" where
  "storeCall cfg op s = orFail (call (EStore op) (StoreEnv cfg op) s)"

definition FetchClass ::
  "'e NurseryConfig \<Rightarrow> uint32 \<Rightarrow> (MsgTx option \<times> kidOutput list \<times> babyOutput list, 'e) routine" where
  "FetchClass cfg height =
     bindE (storeCall cfg (OpFetchClass height)) (\<lambda>_ s.
       (case ClassOutputs cfg height (env s) of
          (kids, babies) \<Rightarrow> (Inr (finalizedTx (store s) height, kids, babies), s)))"

definition LastFinalizedHeight :: "'e NurseryConfig \<Rightarrow> (uint32, 'e) routine" where
  "LastFinalizedHeight cfg =
     bindE (storeCall cfg OpLastFinalizedHeight) (\<lambda>_ s.
       (Inr (lastFinalizedHeight (store s)), s))"

definition FinalizeKinder :: "'e NurseryConfig \<Rightarrow> uint32 \<Rightarrow> MsgTx option \<Rightarrow> (unit, 'e) routine" where
  "FinalizeKinder cfg height finalTx =
     bindE (storeCall cfg (OpFinalizeKinder height finalTx)) (\<lambda>_ s.
       (Inr (), s\<lparr>store := (store s)
          \<lparr>lastFinalizedHeight := max (lastFinalizedHeight (store s)) height,
           finalizedTx := (finalizedTx (store s))(height := finalTx)\<rparr>\<rparr>))"

definition PurgeHeight :: "'e NurseryConfig \<Rightarrow> uint32 \<Rightarrow> (unit, 'e) routine" where
  "PurgeHeight cfg height =
     bindE (storeCall cfg (OpPurgeHeight height)) (\<lambda>_ s.
       (Inr (), s\<lparr>store := (store s)
          \<lparr>finalizedTx := (finalizedTx (store s))(height := None)\<rparr>\<rparr>))"

definition Incubate ::
  "'e NurseryConfig \<Rightarrow> kidOutput option \<Rightarrow> babyOutput list \<Rightarrow> (unit, 'e) routine" where
  "Incubate cfg commOutput htlcOutputs = storeCall cfg (OpIncubate commOutput htlcOutputs)"

subsection \<open>The sweep builder\<close>

text \<open>
  \<open>sweepCsvSpendableOutputsTxn\<close>. The three loops over \<open>inputs\<close> are \<open>totalSum\<close> (a left
  fold from 0), \<open>addInputs\<close> and \<open>addWitnesses\<close>; the last stops at the first signing
  error. \<open>sweepTx.TxIn[idx]\<close> exists for every \<open>idx\<close> the loop reaches, since the
  transaction has one input per element of \<open>inputs\<close>.
\<close>

definition totalSum :: "kidOutput list \<Rightarrow> int64" where
  "totalSum inputs = foldl (\<lambda>acc o'. acc + amt o') 0 inputs"

fun addInputs :: "kidOutput list \<Rightarrow> MsgTx \<Rightarrow> MsgTx" where
  "addInputs [] sweepTx = sweepTx"
| "addInputs (input # rest) sweepTx =
     addInputs rest
       (AddTxIn \<lparr>PreviousOutPoint = outpoint input, SignatureScript = [],
                 Witness = [], Sequence = blocksToMaturity input\<rparr> sweepTx)"

definition setWitness :: "nat \<Rightarrow> byte list list \<Rightarrow> MsgTx \<Rightarrow> MsgTx" where
  "setWitness idx witness sweepTx =
     sweepTx\<lparr>TxIn := (TxIn sweepTx)[idx := (TxIn sweepTx ! idx)\<lparr>Witness := witness\<rparr>]\<rparr>"

fun addWitnesses ::
  "'e NurseryConfig \<Rightarrow> kidOutput list \<Rightarrow> nat \<Rightarrow> MsgTx \<Rightarrow> (MsgTx, 'e) routine" where
  "addWitnesses cfg [] idx sweepTx s = (Inr sweepTx, s)"
| "addWitnesses cfg (input # rest) idx sweepTx s =
     (case call (EBuildWitness idx) (BuildWitness cfg input sweepTx idx) s of
        (Inl err, s') \<Rightarrow> (Inl err, s')
      | (Inr witness, s') \<Rightarrow> addWitnesses cfg rest (Suc idx) (setWitness idx witness sweepTx) s')"

definition sweepCsvSpendableOutputsTxn ::
  "'e NurseryConfig \<Rightarrow> uint64 \<Rightarrow> kidOutput list \<Rightarrow> (MsgTx, 'e) routine" where
  "sweepCsvSpendableOutputsTxn cfg txWeight inputs =
     bindE (call EGenSweepScript (GenSweepScript cfg)) (\<lambda>pkScript s.
       (case call (EEstimateFeePerWeight 1) (EstimateFeePerWeight cfg 1) s of
          (feePerWeight, s') \<Rightarrow>
            (let txFee = txWeight * feePerWeight;
                 sweepAmt = totalSum inputs - txFee;
                 sweepTx = addInputs inputs
                   (AddTxOut \<lparr>Value = sweepAmt, PkScript = pkScript\<rparr> (NewMsgTx 2))
             in case CheckTransactionSanity cfg sweepTx of
                  Some err \<Rightarrow> (Inl err, s')
                | None \<Rightarrow> addWitnesses cfg inputs 0 sweepTx s')))"

text \<open>
  \<open>createSweepTx\<close>: the loop carries the weight estimate and the inputs gathered so far;
  the \<open>default\<close> branch warns and continues with both unchanged.
\<close>

fun gatherInputs ::
  "'e NurseryConfig \<Rightarrow> kidOutput list \<Rightarrow> uint64 \<Rightarrow> kidOutput list \<Rightarrow> 'e utxoNursery \<Rightarrow>
   (uint64 \<times> kidOutput list) \<times> 'e utxoNursery" where
  "gatherInputs cfg [] txWeight inputs s = ((txWeight, inputs), s)"
| "gatherInputs cfg (input # rest) txWeight inputs s =
     (if witnessType input = CommitmentTimeLock cfg then
        gatherInputs cfg rest
          (txWeight + 4 * InputSize cfg + ToLocalTimeoutWitnessSize cfg) (inputs @ [input]) s
      else if witnessType input = HtlcOfferedTimeout cfg then
        gatherInputs cfg rest
          (txWeight + 4 * InputSize cfg + OfferedHtlcTimeoutWitnessSize cfg) (inputs @ [input]) s
      else
        gatherInputs cfg rest txWeight inputs (emit (EWarnf (witnessType input)) s))"

definition createSweepTx :: "'e NurseryConfig \<Rightarrow> kidOutput list \<Rightarrow> (MsgTx, 'e) routine" where
  "createSweepTx cfg kgtnOutputs s =
     (case gatherInputs cfg kgtnOutputs
             (4 * BaseSweepTxSize cfg + WitnessHeaderSize cfg) [] s of
        ((txWeight, inputs), s') \<Rightarrow> sweepCsvSpendableOutputsTxn cfg txWeight inputs s')"

subsection \<open>Broadcasting\<close>

text \<open>
  \<open>sweepGraduatingKinders\<close> and \<open>sweepCribOutput\<close>: a publish error is returned unless its
  message contains "TX rejected:"; then the confirmation is registered and the reactor
  started (the goroutine itself is outside this development).
\<close>

definition publish :: "'e NurseryConfig \<Rightarrow> caller \<Rightarrow> MsgTx \<Rightarrow> (unit, 'e) routine" where
  "publish cfg who tx s =
     (case call (EPublishTransaction who tx) (PublishTransaction cfg tx) s of
        (Some err, s') \<Rightarrow>
          if \<not> Contains (Error err) ''TX rejected:'' then (Inl err, s') else (Inr (), s')
      | (None, s') \<Rightarrow> (Inr (), s'))"

definition registerConf ::
  "'e NurseryConfig \<Rightarrow> byte list \<Rightarrow> uint32 \<Rightarrow> (confChan, 'e) routine" where
  "registerConf cfg txid heightHint =
     call (ERegisterConfirmationsNtfn txid (ConfDepth cfg) heightHint)
       (RegisterConfirmationsNtfn cfg txid (ConfDepth cfg) heightHint)"

definition sweepGraduatingKinders ::
  "'e NurseryConfig \<Rightarrow> uint32 \<Rightarrow> MsgTx \<Rightarrow> kidOutput list \<Rightarrow> (unit, 'e) routine" where
  "sweepGraduatingKinders cfg classHeight finalTx kgtnOutputs =
     bindE (publish cfg (SweepGraduatingKinders classHeight) finalTx) (\<lambda>_.
     bindE (registerConf cfg (TxHash cfg finalTx) classHeight) (\<lambda>confChan s.
       (Inr (), emit (EGo_waitForGraduation classHeight kgtnOutputs confChan) s)))"

definition sweepCribOutput ::
  "'e NurseryConfig \<Rightarrow> uint32 \<Rightarrow> babyOutput \<Rightarrow> (unit, 'e) routine" where
  "sweepCribOutput cfg classHeight baby =
     bindE (publish cfg (SweepCribOutput classHeight) (timeoutTx baby)) (\<lambda>_.
     bindE (registerConf cfg (Hash (outpoint baby)) classHeight) (\<lambda>confChan s.
       (Inr (), emit (EGo_waitForEnrollment baby confChan) s)))"

fun sweepCribOutputs ::
  "'e NurseryConfig \<Rightarrow> uint32 \<Rightarrow> babyOutput list \<Rightarrow> (unit, 'e) routine" where
  "sweepCribOutputs cfg classHeight [] s = (Inr (), s)"
| "sweepCribOutputs cfg classHeight (baby # rest) s =
     (case sweepCribOutput cfg classHeight baby s of
        (Inl err, s') \<Rightarrow> (Inl err, s')
      | (Inr _, s') \<Rightarrow> sweepCribOutputs cfg classHeight rest s')"

subsection \<open>graduateClass\<close>

text \<open>
  The steps of \<open>graduateClass\<close>, in the source's order: record the height, fetch the class,
  load the last finalized height, finalize if the height is new, broadcast the sweep,
  broadcast the crib outputs' timeout transactions, purge.
\<close>

definition finalizeClass ::
  "'e NurseryConfig \<Rightarrow> uint32 \<Rightarrow> MsgTx option \<Rightarrow> kidOutput list \<Rightarrow> (MsgTx option, 'e) routine" where
  "finalizeClass cfg classHeight finalTx kgtnOutputs =
     bindE (if kgtnOutputs \<noteq> [] then
              bindE (createSweepTx cfg kgtnOutputs) (\<lambda>tx. ret (Some tx))
            else ret finalTx) (\<lambda>finalTx'.
     bindE (FinalizeKinder cfg classHeight finalTx') (\<lambda>_. ret finalTx'))"

definition graduateClass :: "'e NurseryConfig \<Rightarrow> uint32 \<Rightarrow> (unit, 'e) routine" where
  "graduateClass cfg classHeight s =
     (bindE (FetchClass cfg classHeight) (\<lambda>(finalTx, kgtnOutputs, cribOutputs).
      bindE (LastFinalizedHeight cfg) (\<lambda>lastFinalizedHeight.
      bindE (if classHeight > lastFinalizedHeight then
               finalizeClass cfg classHeight finalTx kgtnOutputs
             else ret finalTx) (\<lambda>finalTx'.
      bindE (case finalTx' of
               Some tx \<Rightarrow> sweepGraduatingKinders cfg classHeight tx kgtnOutputs
             | None \<Rightarrow> ret ()) (\<lambda>_.
      bindE (sweepCribOutputs cfg classHeight cribOutputs) (\<lambda>_.
        if PruningDepth cfg \<ge> classHeight then ret ()
        else PurgeHeight cfg (classHeight - PruningDepth cfg)))))))
     (s\<lparr>currentHeight := classHeight\<rparr>)"

text \<open>
  The \<open>incubator\<close> calls \<open>graduateClass\<close> for the height of each block epoch it receives,
  logs an error and waits for the next epoch; \<open>reloadClasses\<close> calls it for each missed
  height. \<open>graduateClasses\<close> is such a sequence of calls, at any heights, each on the
  nursery as the previous call left it.
\<close>

fun graduateClasses :: "'e NurseryConfig \<Rightarrow> uint32 list \<Rightarrow> 'e utxoNursery \<Rightarrow> 'e utxoNursery" where
  "graduateClasses cfg [] s = s"
| "graduateClasses cfg (height # epochs) s =
     graduateClasses cfg epochs (snd (graduateClass cfg height s))"

subsection \<open>IncubateOutputs\<close>

definition selfOutput :: "'e NurseryConfig \<Rightarrow> ForceCloseSummary \<Rightarrow> kidOutput option" where
  "selfOutput cfg closeSummary =
     (case SelfOutputSignDesc closeSummary of
        None \<Rightarrow> None
      | Some sd \<Rightarrow>
          (let selfOutput = makeKidOutput (SelfOutpoint closeSummary) (ChanPoint closeSummary)
                 (SelfOutputMaturity closeSummary) (CommitmentTimeLock cfg) sd
           in if sint (amt selfOutput) > 0 then Some selfOutput else None))"

fun htlcOutputs ::
  "'e NurseryConfig \<Rightarrow> ForceCloseSummary \<Rightarrow> OutgoingHtlcResolution list \<Rightarrow> babyOutput list \<Rightarrow>
   babyOutput list" where
  "htlcOutputs cfg closeSummary [] acc = acc"
| "htlcOutputs cfg closeSummary (htlcRes # rest) acc =
     (let htlcOutpoint = \<lparr>Hash = TxHash cfg (SignedTimeoutTx htlcRes), Index = 0\<rparr>;
          htlcOutput = makeBabyOutput htlcOutpoint (ChanPoint closeSummary)
            (SelfOutputMaturity closeSummary) (HtlcOfferedTimeout cfg) htlcRes
      in htlcOutputs cfg closeSummary rest
           (if sint (amt htlcOutput) > 0 then acc @ [htlcOutput] else acc))"

definition IncubateOutputs :: "'e NurseryConfig \<Rightarrow> ForceCloseSummary \<Rightarrow> (unit, 'e) routine" where
  "IncubateOutputs cfg closeSummary s =
     (let commOutput = selfOutput cfg closeSummary;
          babies = htlcOutputs cfg closeSummary (HtlcResolutions closeSummary) []
      in if commOutput = None \<and> babies = [] then
           orFail (call (EMarkChanFullyClosed (ChanPoint closeSummary))
                     (MarkChanFullyClosed cfg (ChanPoint closeSummary)) s)
         else
           bindE (Incubate cfg commOutput babies) (\<lambda>_.
             case commOutput of
               None \<Rightarrow> ret ()
             | Some kid \<Rightarrow>
                 (\<lambda>s'. bindE (registerConf cfg (Hash (outpoint kid)) (currentHeight s'))
                    (\<lambda>confChan s''. (Inr (), emit (EGo_waitForPromotion kid confChan) s'')) s')) s)"

section \<open>The on-disk codec\<close>

text \<open>
  \<open>kidOutput.Encode\<close>/\<open>Decode\<close> and \<open>babyOutput.Encode\<close>/\<open>Decode\<close>, with the library
  functions they call. \<open>byteOrder\<close> is \<open>binary.BigEndian\<close>: \<open>PutUint16\<close>, \<open>PutUint32\<close> and
  \<open>PutUint64\<close> store the most significant byte first, by shifts, and \<open>Uint16\<close>, \<open>Uint32\<close>
  and \<open>Uint64\<close> read the first 2, 4 and 8 bytes of a slice back (Go panics on a shorter
  slice; every call here passes a long enough one, and the last equation is never used).
\<close>

definition PutUint16 :: "uint16 \<Rightarrow> byte list" where
  "PutUint16 v = [ucast (drop_bit 8 v), ucast v]"

definition PutUint32 :: "uint32 \<Rightarrow> byte list" where
  "PutUint32 v = [ucast (drop_bit 24 v), ucast (drop_bit 16 v), ucast (drop_bit 8 v), ucast v]"

definition PutUint64 :: "uint64 \<Rightarrow> byte list" where
  "PutUint64 v =
     [ucast (drop_bit 56 v), ucast (drop_bit 48 v), ucast (drop_bit 40 v), ucast (drop_bit 32 v),
      ucast (drop_bit 24 v), ucast (drop_bit 16 v), ucast (drop_bit 8 v), ucast v]"

fun Uint16 :: "byte list \<Rightarrow> uint16" where
  "Uint16 (b0 # b1 # _) = ucast b1 OR push_bit 8 (ucast b0)"
| "Uint16 _ = 0"

fun Uint32 :: "byte list \<Rightarrow> uint32" where
  "Uint32 (b0 # b1 # b2 # b3 # _) =
     ucast b3 OR push_bit 8 (ucast b2) OR push_bit 16 (ucast b1) OR push_bit 24 (ucast b0)"
| "Uint32 _ = 0"

fun Uint64 :: "byte list \<Rightarrow> uint64" where
  "Uint64 (b0 # b1 # b2 # b3 # b4 # b5 # b6 # b7 # _) =
     ucast b7 OR push_bit 8 (ucast b6) OR push_bit 16 (ucast b5) OR push_bit 24 (ucast b4) OR
     push_bit 32 (ucast b3) OR push_bit 40 (ucast b2) OR push_bit 48 (ucast b1) OR
     push_bit 56 (ucast b0)"
| "Uint64 _ = 0"

text \<open>
  Errors of package io and of btcd's wire package; \<open>thenE\<close> is
  \<open>if err != nil { return err }\<close> for a function that returns a value or an error.
\<close>

definition EOF :: error where
  "EOF = Err ''EOF''"

definition ErrUnexpectedEOF :: error where
  "ErrUnexpectedEOF = Err ''unexpected EOF''"

definition errNonCanonicalVarInt :: error where
  "errNonCanonicalVarInt = Err ''ReadVarInt: non-canonical varint''"

definition errTooLong :: "string \<Rightarrow> error" where
  "errTooLong fieldName = Err (''ReadVarBytes: '' @ fieldName @ '' is larger than the max allowed size'')"

definition thenE :: "error + 'a \<Rightarrow> ('a \<Rightarrow> error + 'b) \<Rightarrow> error + 'b" where
  "thenE r f = (case r of Inl err \<Rightarrow> Inl err | Inr a \<Rightarrow> f a)"

text \<open>
  The writer is an in-memory buffer (\<open>bytes.Buffer\<close>): a write appends and does not fail.
  The reader is a \<open>bytes.Reader\<close>, the list of the bytes not yet read: \<open>Read\<close> of \<open>n\<close>
  bytes returns \<open>io.EOF\<close> when none is left and otherwise as many as there are, up
  to \<open>n\<close>; \<open>copy\<close> stores them at the start of the caller's buffer and leaves the rest
  of the buffer as it was.
\<close>

type_synonym Writer = "byte list"

definition Write :: "byte list \<Rightarrow> Writer \<Rightarrow> error + Writer" where
  "Write p w = Inr (w @ p)"

type_synonym Reader = "byte list"

definition Read :: "nat \<Rightarrow> Reader \<Rightarrow> error + (byte list \<times> Reader)" where
  "Read n r = (if r = [] then Inl EOF else Inr (take n r, drop n r))"

definition copy :: "byte list \<Rightarrow> byte list \<Rightarrow> byte list" where
  "copy dst src = take (length dst) src @ drop (length src) dst"

text \<open>
  \<open>io.LimitReader(r, n)\<close> and \<open>io.ReadFull\<close> on it: the loop of \<open>io.ReadAtLeast\<close> reads
  until the buffer is full or a read fails, and an \<open>io.EOF\<close> after some bytes is
  \<open>io.ErrUnexpectedEOF\<close>. A read that does not fail returns at least one byte, which is
  why the loop ends.
\<close>

record LimitedReader =
  R :: Reader
  N :: int

definition LimitedReader_Read :: "nat \<Rightarrow> LimitedReader \<Rightarrow> error + (byte list \<times> LimitedReader)" where
  "LimitedReader_Read n l =
     (if N l \<le> 0 then Inl EOF
      else thenE (Read (if int n > N l then nat (N l) else n) (R l)) (\<lambda>(bs, r').
             Inr (bs, \<lparr>R = r', N = N l - int (length bs)\<rparr>)))"

function ReadFull :: "nat \<Rightarrow> byte list \<Rightarrow> LimitedReader \<Rightarrow> error + (byte list \<times> LimitedReader)" where
  "ReadFull want got l =
     (if want = 0 then Inr (got, l)
      else case LimitedReader_Read want l of
             Inl err \<Rightarrow> Inl (if got \<noteq> [] \<and> err = EOF then ErrUnexpectedEOF else err)
           | Inr (bs, l') \<Rightarrow> ReadFull (want - length bs) (got @ bs) l')"
  by pat_completeness auto
termination
  by (relation "measure (\<lambda>(want, got, l). want)")
     (auto simp: LimitedReader_Read_def Read_def thenE_def split: if_splits)


declare ReadFull.simps [simp del]

text \<open>
  btcd's \<open>wire.WriteVarInt\<close>, \<open>WriteVarBytes\<close>, \<open>ReadVarInt\<close> and \<open>ReadVarBytes\<close>: a
  length below 0xfd is one byte; longer ones follow a marker in little-endian order, and
  a reader rejects a length that a shorter encoding could hold. \<open>ReadFull 1\<close> returns one
  byte (lemma \<open>ReadFull_length\<close>), the discriminant.
\<close>

definition WriteVarInt :: "uint64 \<Rightarrow> Writer \<Rightarrow> error + Writer" where
  "WriteVarInt val w =
     (if val < 0xfd then Write [ucast val] w
      else if val \<le> 0xffff then
        thenE (Write [0xfd] w) (Write (rev (PutUint16 (ucast val))))
      else if val \<le> 0xffffffff then
        thenE (Write [0xfe] w) (Write (rev (PutUint32 (ucast val))))
      else
        thenE (Write [0xff] w) (Write (rev (PutUint64 val))))"

definition WriteVarBytes :: "byte list \<Rightarrow> Writer \<Rightarrow> error + Writer" where
  "WriteVarBytes bytes w = thenE (WriteVarInt (of_nat (length bytes)) w) (Write bytes)"

definition ReadVarInt :: "LimitedReader \<Rightarrow> error + (uint64 \<times> LimitedReader)" where
  "ReadVarInt l =
     thenE (ReadFull 1 [] l) (\<lambda>(buf, l1).
       let discriminant = hd buf in
       if discriminant = 0xff then
         thenE (ReadFull 8 [] l1) (\<lambda>(bs, l2).
           let rv = Uint64 (rev bs) in
           if rv < 0x100000000 then Inl errNonCanonicalVarInt else Inr (rv, l2))
       else if discriminant = 0xfe then
         thenE (ReadFull 4 [] l1) (\<lambda>(bs, l2).
           let rv = ucast (Uint32 (rev bs)) in
           if rv < 0x10000 then Inl errNonCanonicalVarInt else Inr (rv, l2))
       else if discriminant = 0xfd then
         thenE (ReadFull 2 [] l1) (\<lambda>(bs, l2).
           let rv = ucast (Uint16 (rev bs)) in
           if rv < 0xfd then Inl errNonCanonicalVarInt else Inr (rv, l2))
       else Inr (ucast discriminant, l1))"

definition ReadVarBytes ::
  "LimitedReader \<Rightarrow> uint32 \<Rightarrow> string \<Rightarrow> error + (byte list \<times> LimitedReader)" where
  "ReadVarBytes l maxAllowed fieldName =
     thenE (ReadVarInt l) (\<lambda>(count, l1).
       if count > ucast maxAllowed then Inl (errTooLong fieldName)
       else ReadFull (unat count) [] l1)"

text \<open>
  \<open>writeOutpoint\<close> and \<open>readOutpoint\<close>. \<open>copy(o.Hash[:], txid)\<close> writes into the 32-byte
  array of the outpoint passed by reference; the index is read into a fresh 4-byte
  scratch buffer.
\<close>

definition writeOutpoint :: "OutPoint \<Rightarrow> Writer \<Rightarrow> error + Writer" where
  "writeOutpoint o' w = thenE (WriteVarBytes (Hash o') w) (Write (PutUint32 (Index o')))"

definition readOutpoint :: "LimitedReader \<Rightarrow> OutPoint \<Rightarrow> error + (OutPoint \<times> LimitedReader)" where
  "readOutpoint l o' =
     thenE (ReadVarBytes l 32 ''prevout'') (\<lambda>(txid, l1).
     thenE (LimitedReader_Read 4 l1) (\<lambda>(bs, l2).
       Inr (\<lparr>Hash = copy (Hash o') txid, Index = Uint32 (copy [0, 0, 0, 0] bs)\<rparr>, l2)))"

text \<open>
  \<open>lnwallet.WriteSignDescriptor\<close> and \<open>ReadSignDescriptor\<close> are not among the sources, and
  \<open>MsgTx.Serialize\<close> and \<open>Deserialize\<close> are btcd's: they are parameters. \<open>signDescriptorBytes\<close>
  and \<open>serializedBytes\<close> give the bytes the two writers produce, or their error.
\<close>

record Codecs =
  signDescriptorBytes :: "SignDescriptor \<Rightarrow> error + byte list"
  ReadSignDescriptor :: "Reader \<Rightarrow> error + (SignDescriptor \<times> Reader)"
  serializedBytes :: "MsgTx \<Rightarrow> error + byte list"
  Deserialize :: "Reader \<Rightarrow> error + (MsgTx \<times> Reader)"

definition WriteSignDescriptor :: "Codecs \<Rightarrow> SignDescriptor \<Rightarrow> Writer \<Rightarrow> error + Writer" where
  "WriteSignDescriptor c sd w = thenE (signDescriptorBytes c sd) (\<lambda>bs. Write bs w)"

definition Serialize :: "Codecs \<Rightarrow> MsgTx \<Rightarrow> Writer \<Rightarrow> error + Writer" where
  "Serialize c tx w = thenE (serializedBytes c tx) (\<lambda>bs. Write bs w)"

text \<open>
  The four methods. The methods of \<open>kidOutput\<close> work on any struct that embeds one.
  \<open>Decode\<close> assigns the fields of its receiver one by one; \<open>scratch\<close> is the 8-byte
  buffer it reads into, which keeps its older bytes when a read comes back short.
\<close>

definition kidOutput_Encode :: "Codecs \<Rightarrow> 'a kidOutput_scheme \<Rightarrow> Writer \<Rightarrow> error + Writer" where
  "kidOutput_Encode c k w =
     thenE (Write (PutUint64 (amt k)) w) (\<lambda>w.
     thenE (writeOutpoint (outpoint k) w) (\<lambda>w.
     thenE (writeOutpoint (originChanPoint k) w) (\<lambda>w.
     thenE (Write (PutUint32 (blocksToMaturity k)) w) (\<lambda>w.
     thenE (Write (PutUint32 (confHeight k)) w) (\<lambda>w.
     thenE (Write (PutUint16 (witnessType k)) w) (\<lambda>w.
       WriteSignDescriptor c (signDesc k) w))))))"

definition kidOutput_Decode ::
  "Codecs \<Rightarrow> 'a kidOutput_scheme \<Rightarrow> Reader \<Rightarrow> error + ('a kidOutput_scheme \<times> Reader)" where
  "kidOutput_Decode c k r =
     thenE (Read 8 r) (\<lambda>(bs, r).
       let scratch = copy (replicate 8 0) bs;
           k = k\<lparr>amt := Uint64 scratch\<rparr> in
     thenE (readOutpoint \<lparr>R = r, N = 40\<rparr> (outpoint k)) (\<lambda>(op, l).
       let k = k\<lparr>outpoint := op\<rparr> in
     thenE (readOutpoint \<lparr>R = R l, N = 40\<rparr> (originChanPoint k)) (\<lambda>(op, l).
       let k = k\<lparr>originChanPoint := op\<rparr> in
     thenE (Read 4 (R l)) (\<lambda>(bs, r).
       let scratch = copy scratch bs;
           k = k\<lparr>blocksToMaturity := Uint32 (take 4 scratch)\<rparr> in
     thenE (Read 4 r) (\<lambda>(bs, r).
       let scratch = copy scratch bs;
           k = k\<lparr>confHeight := Uint32 (take 4 scratch)\<rparr> in
     thenE (Read 2 r) (\<lambda>(bs, r).
       let scratch = copy scratch bs;
           k = k\<lparr>witnessType := Uint16 (take 2 scratch)\<rparr> in
     thenE (ReadSignDescriptor c r) (\<lambda>(sd, r).
       Inr (k\<lparr>signDesc := sd\<rparr>, r))))))))"

definition babyOutput_Encode :: "Codecs \<Rightarrow> babyOutput \<Rightarrow> Writer \<Rightarrow> error + Writer" where
  "babyOutput_Encode c bo w =
     thenE (Write (PutUint32 (expiry bo)) w) (\<lambda>w.
     thenE (Serialize c (timeoutTx bo) w) (\<lambda>w.
       kidOutput_Encode c bo w))"

definition babyOutput_Decode ::
  "Codecs \<Rightarrow> babyOutput \<Rightarrow> Reader \<Rightarrow> error + (babyOutput \<times> Reader)" where
  "babyOutput_Decode c bo r =
     thenE (Read 4 r) (\<lambda>(bs, r).
       let scratch = copy [0, 0, 0, 0] bs;
           bo = bo\<lparr>expiry := Uint32 scratch\<rparr> in
     thenE (Deserialize c r) (\<lambda>(tx, r).
       let bo = bo\<lparr>timeoutTx := tx\<rparr> in
       kidOutput_Decode c bo r))"

section \<open>A sample configuration\<close>

text \<open>
  A concrete nursery on which the theorems below are instantiated. Its environment is a
  counter: the wallet derives each sweep script from it, so no two calls of
  \<open>GenSweepScript\<close> return the same script. The weights are sample values. Height 244
  holds one kindergarten output of 500000 satoshis with a CSV delay of 144 blocks. Its
  \<open>CheckTransactionSanity\<close> makes the first check of btcd's, which refuses a transaction
  without inputs.
\<close>

definition sampleKid :: "WitnessType \<Rightarrow> int64 \<Rightarrow> uint32 \<Rightarrow> kidOutput" where
  "sampleKid wt value btm =
     makeKidOutput \<lparr>Hash = replicate 32 7, Index = ucast wt\<rparr> \<lparr>Hash = replicate 32 9, Index = 0\<rparr> btm wt
       \<lparr>Output = \<lparr>Value = value, PkScript = [0, 20]\<rparr>, Opaque = [1, 2, 3]\<rparr>"

definition sampleCfg :: "nat NurseryConfig" where
  "sampleCfg = \<lparr>
     ConfDepth = 6,
     PruningDepth = 100,
     GenSweepScript = (\<lambda>e. (Inr [0, 20, of_nat e], Suc e)),
     EstimateFeePerWeight = (\<lambda>n e. (10, e)),
     BuildWitness = (\<lambda>kid tx idx e. (Inr [[of_nat idx]], e)),
     PublishTransaction = (\<lambda>tx e. (None, e)),
     RegisterConfirmationsNtfn = (\<lambda>txid depth hint e. (Inr e, Suc e)),
     MarkChanFullyClosed = (\<lambda>cp e. (None, e)),
     CheckTransactionSanity = (\<lambda>tx. if TxIn tx = [] then Some (Err ''transaction has no inputs'') else None),
     TxHash = (\<lambda>tx. concat (map PkScript (TxOut tx))),
     StoreEnv = (\<lambda>op e. (None, e)),
     ClassOutputs = (\<lambda>h e. (if h = 244 then [sampleKid 0 500000 144] else [], [])),
     BaseSweepTxSize = 41,
     WitnessHeaderSize = 2,
     InputSize = 41,
     ToLocalTimeoutWitnessSize = 156,
     OfferedHtlcTimeoutWitnessSize = 243,
     CommitmentTimeLock = 0,
     HtlcOfferedTimeout = 5\<rparr>"

definition sampleNursery :: "nat utxoNursery" where
  "sampleNursery = \<lparr>currentHeight = 0,
     store = \<lparr>lastFinalizedHeight = 0, finalizedTx = (\<lambda>h. None)\<rparr>,
     env = 0, trace = []\<rparr>"

text \<open>The same nursery with a broadcaster that is offline.\<close>

definition offlineCfg :: "nat NurseryConfig" where
  "offlineCfg = sampleCfg\<lparr>PublishTransaction := \<lambda>tx e. (Some (Err ''connection refused''), e)\<rparr>"

text \<open>The sample nursery after it has graduated height 244 once.\<close>

definition finalizedNursery :: "nat utxoNursery" where
  "finalizedNursery = snd (graduateClass sampleCfg 244 sampleNursery)"

text \<open>A wallet that cannot produce a sweep script.\<close>

definition lockedCfg :: "nat NurseryConfig" where
  "lockedCfg = sampleCfg\<lparr>GenSweepScript := \<lambda>e. (Inl (Err ''wallet locked''), e)\<rparr>"

text \<open>
  A crib output of 30000 satoshis expiring at height 200, and a broadcaster that already
  knows every version-2 transaction and is unreachable for the others.
\<close>

definition sampleBaby :: babyOutput where
  "sampleBaby =
     makeBabyOutput \<lparr>Hash = replicate 32 5, Index = 0\<rparr> \<lparr>Hash = replicate 32 9, Index = 0\<rparr> 80 5
       \<lparr>Expiry = 200,
        SignedTimeoutTx = AddTxOut \<lparr>Value = 30000, PkScript = [0, 32]\<rparr> (NewMsgTx 1),
        SweepSignDesc = \<lparr>Output = \<lparr>Value = 30000, PkScript = [0, 32]\<rparr>, Opaque = [4]\<rparr>\<rparr>"

definition pickyCfg :: "nat NurseryConfig" where
  "pickyCfg = sampleCfg\<lparr>PublishTransaction := \<lambda>tx e.
     (Some (Err (if Version tx = 2 then ''TX rejected: already have transaction''
                 else ''connection refused'')), e)\<rparr>"

text \<open>
  A class with an output of an unknown witness type (9) between two known ones, and the
  sweep of the single output of height 244 at a weight of 486.
\<close>

definition sampleClass :: "kidOutput list" where
  "sampleClass = [sampleKid 0 500000 144, sampleKid 9 70000 144, sampleKid 5 30000 80]"

definition sampleSweep :: MsgTx where
  "sampleSweep = \<lparr>Version = 2,
     TxIn = [\<lparr>PreviousOutPoint = \<lparr>Hash = replicate 32 7, Index = 0\<rparr>, SignatureScript = [],
              Witness = [[0]], Sequence = 144\<rparr>],
     TxOut = [\<lparr>Value = 495140, PkScript = [0, 20, 0]\<rparr>],
     LockTime = 0\<rparr>"

text \<open>
  Force-close summaries: one with a to-self output of 500000 satoshis, an HTLC of 30000
  and an HTLC of no value; one with nothing to incubate.
\<close>

definition sampleDesc :: "int64 \<Rightarrow> SignDescriptor" where
  "sampleDesc value = \<lparr>Output = \<lparr>Value = value, PkScript = [0, 32]\<rparr>, Opaque = [4]\<rparr>"

definition sampleResolution :: "int64 \<Rightarrow> OutgoingHtlcResolution" where
  "sampleResolution value =
     \<lparr>Expiry = 200,
      SignedTimeoutTx = AddTxOut \<lparr>Value = value, PkScript = [0, 32]\<rparr> (NewMsgTx 1),
      SweepSignDesc = sampleDesc value\<rparr>"

definition sampleSummary :: ForceCloseSummary where
  "sampleSummary =
     \<lparr>ChanPoint = \<lparr>Hash = replicate 32 9, Index = 0\<rparr>,
      SelfOutpoint = \<lparr>Hash = replicate 32 7, Index = 0\<rparr>,
      SelfOutputMaturity = 144,
      SelfOutputSignDesc = Some (sampleDesc 500000),
      HtlcResolutions = [sampleResolution 30000, sampleResolution 0]\<rparr>"

definition dustSummary :: ForceCloseSummary where
  "dustSummary = sampleSummary\<lparr>SelfOutputSignDesc := None, HtlcResolutions := [sampleResolution 0]\<rparr>"

text \<open>
  Sample codecs for the two external formats: a sign descriptor as its value and two
  length-prefixed strings, a transaction without inputs and outputs as its version and
  lock time. The zero values are the receivers a decoder starts from.
\<close>

fun readBlob :: "Reader \<Rightarrow> error + (byte list \<times> Reader)" where
  "readBlob [] = Inl EOF"
| "readBlob (n # r) =
     (if length r < unat n then Inl ErrUnexpectedEOF else Inr (take (unat n) r, drop (unat n) r))"

definition blob :: "byte list \<Rightarrow> byte list" where
  "blob bs = of_nat (length bs) # bs"

definition sampleCodecs :: Codecs where
  "sampleCodecs = \<lparr>
     signDescriptorBytes = (\<lambda>sd.
       if length (PkScript (Output sd)) < 256 \<and> length (Opaque sd) < 256 then
         Inr (PutUint64 (Value (Output sd)) @ blob (PkScript (Output sd)) @ blob (Opaque sd))
       else Inl (Err ''sign descriptor too long'')),
     ReadSignDescriptor = (\<lambda>r.
       if length r < 8 then Inl ErrUnexpectedEOF
       else thenE (readBlob (drop 8 r)) (\<lambda>(pk, r1).
            thenE (readBlob r1) (\<lambda>(opaque, r2).
              Inr (\<lparr>Output = \<lparr>Value = Uint64 (take 8 r), PkScript = pk\<rparr>, Opaque = opaque\<rparr>, r2)))),
     serializedBytes = (\<lambda>tx.
       if TxIn tx = [] \<and> TxOut tx = [] then Inr (PutUint32 (Version tx) @ PutUint32 (LockTime tx))
       else Inl (Err ''transaction not supported'')),
     Deserialize = (\<lambda>r.
       if length r < 8 then Inl ErrUnexpectedEOF
       else Inr (\<lparr>Version = Uint32 (take 4 r), TxIn = [], TxOut = [],
                  LockTime = Uint32 (take 4 (drop 4 r))\<rparr>, drop 8 r))\<rparr>"

definition zeroKid :: kidOutput where
  "zeroKid = makeKidOutput \<lparr>Hash = replicate 32 0, Index = 0\<rparr> \<lparr>Hash = replicate 32 0, Index = 0\<rparr>
     0 0 \<lparr>Output = \<lparr>Value = 0, PkScript = []\<rparr>, Opaque = []\<rparr>"

definition timedBaby :: babyOutput where
  "timedBaby = kidOutput.extend (sampleKid 5 30000 80) (babyOutput.fields 200 (NewMsgTx 1))"

definition zeroBaby :: babyOutput where
  "zeroBaby = kidOutput.extend zeroKid (babyOutput.fields 0 (NewMsgTx 0))"

definition sampleDescBytes :: "int64 \<Rightarrow> byte list" where
  "sampleDescBytes value = PutUint64 value @ blob [0, 20] @ blob [1, 2, 3]"

text \<open>The definitions a concrete run unfolds.\<close>

lemmas run_defs = graduateClass_def bindE_def ret_def FetchClass_def LastFinalizedHeight_def
  storeCall_def orFail_def call_def emit_def finalizeClass_def createSweepTx_def
  sweepCsvSpendableOutputsTxn_def FinalizeKinder_def PurgeHeight_def sweepGraduatingKinders_def
  sweepCribOutput_def publish_def registerConf_def totalSum_def NewMsgTx_def AddTxOut_def
  AddTxIn_def setWitness_def sampleKid_def makeKidOutput_def makeBreachedOutput_def
  kidOutput.defs breachedOutput.defs

section \<open>Vocabulary of the proofs\<close>

text \<open>
  \<open>quiet P m\<close>: the routine \<open>m\<close> leaves the store and the current height alone and
  records only events that satisfy \<open>P\<close>. \<open>builderEvent\<close> are the events of the sweep
  builder, \<open>afterPublish\<close> those of broadcasting other than the publication of a sweep,
  and \<open>key\<close> the events the claims are about: builder events, \<open>FinalizeKinder\<close>,
  \<open>PurgeHeight\<close> and the publication of a sweep.

  \<open>outcome\<close> lists what one call of \<open>graduateClass\<close> can do to the store and which key
  events it can record, in order: it fails while reading; or, at a new height, it fails
  in the builder or in \<open>FinalizeKinder\<close>; or it goes on (\<open>tailOutcome\<close>) with the
  transaction restored from the store, or with the one it has just finalized.
\<close>

definition quiet :: "(event \<Rightarrow> bool) \<Rightarrow> ('e utxoNursery \<Rightarrow> 'r \<times> 'e utxoNursery) \<Rightarrow> bool" where
  "quiet P m = (\<forall>s. case m s of (r, s') \<Rightarrow>
      store s' = store s \<and> currentHeight s' = currentHeight s \<and>
      (\<exists>t. trace s' = trace s @ t \<and> list_all P t))"

fun key :: "event \<Rightarrow> bool" where
  "key (EStore (OpFinalizeKinder h tx)) = True"
| "key (EStore (OpPurgeHeight h)) = True"
| "key (EPublishTransaction (SweepGraduatingKinders h) tx) = True"
| "key (EWarnf w) = True"
| "key EGenSweepScript = True"
| "key (EEstimateFeePerWeight n) = True"
| "key (EBuildWitness i) = True"
| "key _ = False"

fun builderEvent :: "event \<Rightarrow> bool" where
  "builderEvent (EWarnf w) = True"
| "builderEvent EGenSweepScript = True"
| "builderEvent (EEstimateFeePerWeight n) = True"
| "builderEvent (EBuildWitness i) = True"
| "builderEvent _ = False"

definition FIN :: "uint32 \<Rightarrow> MsgTx option \<Rightarrow> event" where
  "FIN h x = EStore (OpFinalizeKinder h x)"

definition PUR :: "uint32 \<Rightarrow> event" where
  "PUR h = EStore (OpPurgeHeight h)"

definition PUB :: "uint32 \<Rightarrow> MsgTx option \<Rightarrow> event list" where
  "PUB h x = (case x of None \<Rightarrow> [] | Some tx \<Rightarrow> [EPublishTransaction (SweepGraduatingKinders h) tx])"

definition finalized :: "uint32 \<Rightarrow> MsgTx option \<Rightarrow> NurseryStore \<Rightarrow> NurseryStore" where
  "finalized h x st = st\<lparr>lastFinalizedHeight := max (lastFinalizedHeight st) h,
                         finalizedTx := (finalizedTx st)(h := x)\<rparr>"

definition purged :: "uint32 \<Rightarrow> NurseryStore \<Rightarrow> NurseryStore" where
  "purged h st = st\<lparr>finalizedTx := (finalizedTx st)(h := None)\<rparr>"

fun afterPublish :: "event \<Rightarrow> bool" where
  "afterPublish (ERegisterConfirmationsNtfn txid d h) = True"
| "afterPublish (EGo_waitForGraduation h kids c) = True"
| "afterPublish (EGo_waitForEnrollment b c) = True"
| "afterPublish (EPublishTransaction (SweepCribOutput h) tx) = True"
| "afterPublish _ = False"

definition tailOutcome ::
  "'e NurseryConfig \<Rightarrow> uint32 \<Rightarrow> MsgTx option \<Rightarrow> NurseryStore \<Rightarrow> (error + unit) \<Rightarrow>
   event list \<Rightarrow> NurseryStore \<Rightarrow> bool" where
  "tailOutcome cfg h x st r k st' =
     ((k = PUB h x \<and> st' = st \<and> (isl r \<or> h \<le> PruningDepth cfg)) \<or>
      (PruningDepth cfg < h \<and> k = PUB h x @ [PUR (h - PruningDepth cfg)] \<and>
        ((isl r \<and> st' = st) \<or> (r = Inr () \<and> st' = purged (h - PruningDepth cfg) st))))"

definition outcome ::
  "'e NurseryConfig \<Rightarrow> uint32 \<Rightarrow> NurseryStore \<Rightarrow> (error + unit) \<Rightarrow>
   event list \<Rightarrow> NurseryStore \<Rightarrow> bool" where
  "outcome cfg h st r k st' =
     ((isl r \<and> st' = st \<and> k = []) \<or>
      (lastFinalizedHeight st < h \<and> isl r \<and> st' = st \<and>
         (\<exists>b. list_all builderEvent b \<and> (k = b \<or> (\<exists>x. k = b @ [FIN h x])))) \<or>
      (h \<le> lastFinalizedHeight st \<and> tailOutcome cfg h (finalizedTx st h) st r k st') \<or>
      (lastFinalizedHeight st < h \<and>
         (\<exists>b x k'. list_all builderEvent b \<and> k = b @ FIN h x # k' \<and>
            tailOutcome cfg h x (finalized h x st) r k' st')))"

fun isPurgeHeight :: "event \<Rightarrow> bool" where
  "isPurgeHeight (EStore (OpPurgeHeight h)) = True"
| "isPurgeHeight _ = False"

fun isFinalizeKinder :: "event \<Rightarrow> bool" where
  "isFinalizeKinder (EStore (OpFinalizeKinder h x)) = True"
| "isFinalizeKinder _ = False"

text \<open>
  \<open>sweeps H t\<close> are the transactions that \<open>sweepGraduatingKinders\<close> published for class
  \<open>H\<close> in the trace \<open>t\<close>. \<open>pinned\<close> is the invariant behind the single-txid guarantee:
  nothing was published for a height that is not finalized, and what was published is
  the stored transaction, or one transaction if the store has purged the height.
  \<open>published\<close> is the nursery after one call of \<open>PublishTransaction\<close>.
\<close>

definition sweeps :: "uint32 \<Rightarrow> event list \<Rightarrow> MsgTx set" where
  "sweeps H t = {tx. EPublishTransaction (SweepGraduatingKinders H) tx \<in> set t}"

definition pinned :: "uint32 \<Rightarrow> NurseryStore \<Rightarrow> MsgTx set \<Rightarrow> bool" where
  "pinned H st txs =
     ((lastFinalizedHeight st < H \<longrightarrow> txs = {}) \<and>
      (case finalizedTx st H of Some tx \<Rightarrow> txs \<subseteq> {tx} | None \<Rightarrow> \<exists>tx. txs \<subseteq> {tx}))"

definition published :: "caller \<Rightarrow> MsgTx \<Rightarrow> 'e \<Rightarrow> 'e utxoNursery \<Rightarrow> 'e utxoNursery" where
  "published who tx e' s = s\<lparr>trace := trace s @ [EPublishTransaction who tx], env := e'\<rparr>"

text \<open>
  The sweep builder \<open>recognized\<close> an output when its witness type is one of the two cases
  of the \<open>switch\<close>; \<open>warnings\<close> are the warnings it logs for the others, and \<open>warned\<close>
  the nursery after they are logged. \<open>txInOf\<close> is the input the builder adds for an output.

  \<open>specWeight\<close> follows the words of the specification, not the loop of the code:
  "weight = 4 * base_tx_size + witness_header + Sum (4 * input_size + witness_weight[type])",
  with \<open>witnessWeight\<close> the "fixed table keyed by witness type".
\<close>

definition recognized :: "'e NurseryConfig \<Rightarrow> kidOutput \<Rightarrow> bool" where
  "recognized cfg input =
     (witnessType input = CommitmentTimeLock cfg \<or> witnessType input = HtlcOfferedTimeout cfg)"

definition witnessWeight :: "'e NurseryConfig \<Rightarrow> WitnessType \<Rightarrow> uint64" where
  "witnessWeight cfg wt =
     (if wt = CommitmentTimeLock cfg then ToLocalTimeoutWitnessSize cfg
      else OfferedHtlcTimeoutWitnessSize cfg)"

definition specWeight :: "'e NurseryConfig \<Rightarrow> kidOutput list \<Rightarrow> uint64" where
  "specWeight cfg inputs =
     4 * BaseSweepTxSize cfg + WitnessHeaderSize cfg +
     sum_list (map (\<lambda>input. 4 * InputSize cfg + witnessWeight cfg (witnessType input)) inputs)"

definition warnings :: "'e NurseryConfig \<Rightarrow> kidOutput list \<Rightarrow> event list" where
  "warnings cfg kgtnOutputs =
     map (\<lambda>input. EWarnf (witnessType input)) (filter (\<lambda>input. \<not> recognized cfg input) kgtnOutputs)"

definition warned :: "event list \<Rightarrow> 'e utxoNursery \<Rightarrow> 'e utxoNursery" where
  "warned ws s = s\<lparr>trace := trace s @ ws\<rparr>"

definition txInOf :: "kidOutput \<Rightarrow> TxIn" where
  "txInOf input = \<lparr>PreviousOutPoint = outpoint input, SignatureScript = [],
                    Witness = [], Sequence = blocksToMaturity input\<rparr>"

text \<open>
  For \<open>IncubateOutputs\<close>: a sign descriptor is \<open>positive\<close> when the value of its output,
  read as the signed \<open>btcutil.Amount\<close>, is above zero; \<open>babyOf\<close> is the baby output the
  loop builds from one HTLC resolution.
\<close>

definition positive :: "SignDescriptor \<Rightarrow> bool" where
  "positive sd = (sint (Value (Output sd)) > 0)"

definition babyOf :: "'e NurseryConfig \<Rightarrow> ForceCloseSummary \<Rightarrow> OutgoingHtlcResolution \<Rightarrow> babyOutput" where
  "babyOf cfg closeSummary htlcRes =
     makeBabyOutput \<lparr>Hash = TxHash cfg (SignedTimeoutTx htlcRes), Index = 0\<rparr>
       (ChanPoint closeSummary) (SelfOutputMaturity closeSummary) (HtlcOfferedTimeout cfg) htlcRes"

fun isStoreCall :: "event \<Rightarrow> bool" where
  "isStoreCall (EStore op) = True"
| "isStoreCall _ = False"

text \<open>
  For the codec: an output is \<open>wellFormed\<close> when its two hashes have the 32 bytes of a
  \<open>chainhash.Hash\<close>; \<open>outpointBytes\<close> and \<open>kidBytes\<close> are the bytes of an outpoint and of
  the fixed part of a kid output, in field order.

  Modelled from the spec: the sign descriptor is an "opaque byte blob, self-delimited by
  the external writer" and the timeout transaction is "serialized in the chain's
  canonical transaction format, self-delimited" (section 6.1); \<open>selfDelimited\<close> says that
  each reader reads back what its writer wrote and stops there. \<open>bigEndian\<close> is the
  number a byte string denotes when "all multibyte integers are big-endian": the first
  byte is the most significant.
\<close>

definition outpointBytes :: "OutPoint \<Rightarrow> byte list" where
  "outpointBytes o' = [32] @ Hash o' @ PutUint32 (Index o')"

definition wellFormed :: "'a kidOutput_scheme \<Rightarrow> bool" where
  "wellFormed k = (length (Hash (outpoint k)) = 32 \<and> length (Hash (originChanPoint k)) = 32)"

definition selfDelimited :: "Codecs \<Rightarrow> bool" where
  "selfDelimited c =
     ((\<forall>sd bs rest. signDescriptorBytes c sd = Inr bs \<longrightarrow>
          ReadSignDescriptor c (bs @ rest) = Inr (sd, rest)) \<and>
      (\<forall>tx bs rest. serializedBytes c tx = Inr bs \<longrightarrow>
          Deserialize c (bs @ rest) = Inr (tx, rest)))"

fun bigEndian :: "byte list \<Rightarrow> nat" where
  "bigEndian [] = 0"
| "bigEndian (b # bs) = unat b * 256 ^ length bs + bigEndian bs"

definition kidBytes :: "'a kidOutput_scheme \<Rightarrow> byte list" where
  "kidBytes k =
     PutUint64 (amt k) @ outpointBytes (outpoint k) @ outpointBytes (originChanPoint k) @
     PutUint32 (blocksToMaturity k) @ PutUint32 (confHeight k) @ PutUint16 (witnessType k)"

section \<open>Lemmas\<close>

subsection \<open>Routines and the events they record\<close>

lemma Contains_iff: "Contains s sub \<longleftrightarrow> sublist sub s"
  by (induction s) (auto simp: sublist_Cons_right)

lemma quietI:
  "(\<And>s r s'. m s = (r, s') \<Longrightarrow> store s' = store s \<and> currentHeight s' = currentHeight s \<and>
      (\<exists>t. trace s' = trace s @ t \<and> list_all P t)) \<Longrightarrow> quiet P m"
  by (auto simp: quiet_def)

lemma quietD:
  "quiet P m \<Longrightarrow> m s = (r, s') \<Longrightarrow> store s' = store s \<and> currentHeight s' = currentHeight s \<and>
      (\<exists>t. trace s' = trace s @ t \<and> list_all P t)"
  by (auto simp: quiet_def split: prod.splits)

lemma quiet_ret: "quiet P (ret a)"
  by (simp add: quiet_def ret_def)

lemma quiet_bindE: "quiet P m \<Longrightarrow> (\<And>a. quiet P (f a)) \<Longrightarrow> quiet P (bindE m f)"
proof (rule quietI)
  fix s r s'
  assume m: "quiet P m" and f: "\<And>a. quiet P (f a)" and b: "bindE m f s = (r, s')"
  obtain r1 s1 where m1: "m s = (r1, s1)" by (cases "m s")
  note q1 = quietD [OF m m1]
  show "store s' = store s \<and> currentHeight s' = currentHeight s \<and>
      (\<exists>t. trace s' = trace s @ t \<and> list_all P t)"
  proof (cases r1)
    case (Inl err)
    with b m1 q1 show ?thesis by (simp add: bindE_def)
  next
    case (Inr a)
    with b m1 have "f a s1 = (r, s')" by (simp add: bindE_def)
    from quietD [OF f this] q1 show ?thesis by auto
  qed
qed

lemma quiet_call_sum: "P ev \<Longrightarrow> quiet P (call ev f)"
  by (auto simp: quiet_def call_def emit_def split: prod.splits)

lemma filter_none: "list_all (\<lambda>ev. \<not> P ev) t \<Longrightarrow> filter P t = []"
  by (induction t) auto

lemma quiet_mono: "quiet P m \<Longrightarrow> (\<And>ev. P ev \<Longrightarrow> Q ev) \<Longrightarrow> quiet Q m"
  unfolding quiet_def by (fastforce split: prod.splits elim: list.pred_mono_strong)

lemma quiet_orFail_call: "P ev \<Longrightarrow> quiet P (\<lambda>s. orFail (call ev f s))"
  by (auto simp: quiet_def call_def emit_def orFail_def split: prod.splits option.splits)

lemma quiet_storeCall: "P (EStore op) \<Longrightarrow> quiet P (storeCall cfg op)"
  unfolding storeCall_def by (rule quiet_orFail_call)

lemma quiet_FetchClass: "P (EStore (OpFetchClass h)) \<Longrightarrow> quiet P (FetchClass cfg h)"
  unfolding FetchClass_def
  by (rule quiet_bindE, erule quiet_storeCall) (auto simp: quiet_def split: prod.splits)

lemma quiet_LastFinalizedHeight: "P (EStore OpLastFinalizedHeight) \<Longrightarrow> quiet P (LastFinalizedHeight cfg)"
  unfolding LastFinalizedHeight_def
  by (rule quiet_bindE, erule quiet_storeCall) (auto simp: quiet_def split: prod.splits)

lemma FetchClass_result:
  "FetchClass cfg h s = (Inr (finalTx, kids, cribs), s') \<Longrightarrow> finalTx = finalizedTx (store s) h"
  by (auto simp: FetchClass_def bindE_def storeCall_def orFail_def call_def emit_def
      split: prod.splits option.splits sum.splits)

lemma LastFinalizedHeight_result:
  "LastFinalizedHeight cfg s = (Inr lfh, s') \<Longrightarrow> lfh = lastFinalizedHeight (store s)"
  by (auto simp: LastFinalizedHeight_def bindE_def storeCall_def orFail_def call_def emit_def
      split: prod.splits option.splits sum.splits)

lemma quiet_addWitnesses: "quiet builderEvent (addWitnesses cfg inputs idx sweepTx)"
proof (induction inputs arbitrary: idx sweepTx)
  case Nil
  show ?case by (simp add: quiet_def)
next
  case (Cons input rest)
  show ?case
  proof (rule quietI)
    fix s r s'
    assume a: "addWitnesses cfg (input # rest) idx sweepTx s = (r, s')"
    obtain r1 s1 where c: "call (EBuildWitness idx) (BuildWitness cfg input sweepTx idx) s = (r1, s1)"
      by (cases "call (EBuildWitness idx) (BuildWitness cfg input sweepTx idx) s")
    have q1: "store s1 = store s \<and> currentHeight s1 = currentHeight s \<and>
        (\<exists>t. trace s1 = trace s @ t \<and> list_all builderEvent t)"
      by (rule quietD [OF quiet_call_sum c]) simp
    show "store s' = store s \<and> currentHeight s' = currentHeight s \<and>
        (\<exists>t. trace s' = trace s @ t \<and> list_all builderEvent t)"
    proof (cases r1)
      case (Inl err)
      with a c q1 show ?thesis by simp
    next
      case (Inr w)
      with a c have "addWitnesses cfg rest (Suc idx) (setWitness idx w sweepTx) s1 = (r, s')"
        by simp
      from quietD [OF Cons.IH this] q1 show ?thesis by auto
    qed
  qed
qed

lemma quiet_sweepCsv: "quiet builderEvent (sweepCsvSpendableOutputsTxn cfg txWeight inputs)"
  unfolding sweepCsvSpendableOutputsTxn_def
proof (rule quiet_bindE)
  show "quiet builderEvent (call EGenSweepScript (GenSweepScript cfg))"
    by (rule quiet_call_sum) simp
next
  fix pkScript
  show "quiet builderEvent (\<lambda>s. case call (EEstimateFeePerWeight 1) (EstimateFeePerWeight cfg 1) s of
          (feePerWeight, s') \<Rightarrow>
            (let txFee = txWeight * feePerWeight;
                 sweepAmt = totalSum inputs - txFee;
                 sweepTx = addInputs inputs
                   (AddTxOut \<lparr>Value = sweepAmt, PkScript = pkScript\<rparr> (NewMsgTx 2))
             in case CheckTransactionSanity cfg sweepTx of
                  Some err \<Rightarrow> (Inl err, s')
                | None \<Rightarrow> addWitnesses cfg inputs 0 sweepTx s'))"
  proof (rule quietI)
    fix s r s'
    assume a: "(case call (EEstimateFeePerWeight 1) (EstimateFeePerWeight cfg 1) s of
          (feePerWeight, s') \<Rightarrow>
            (let txFee = txWeight * feePerWeight;
                 sweepAmt = totalSum inputs - txFee;
                 sweepTx = addInputs inputs
                   (AddTxOut \<lparr>Value = sweepAmt, PkScript = pkScript\<rparr> (NewMsgTx 2))
             in case CheckTransactionSanity cfg sweepTx of
                  Some err \<Rightarrow> (Inl err, s')
                | None \<Rightarrow> addWitnesses cfg inputs 0 sweepTx s')) = (r, s')"
    obtain f s1 where c: "call (EEstimateFeePerWeight 1) (EstimateFeePerWeight cfg 1) s = (f, s1)"
      by (cases "call (EEstimateFeePerWeight 1) (EstimateFeePerWeight cfg 1) s")
    have q1: "store s1 = store s \<and> currentHeight s1 = currentHeight s \<and>
        (\<exists>t. trace s1 = trace s @ t \<and> list_all builderEvent t)"
      by (rule quietD [OF quiet_call_sum c]) simp
    from a c q1 show "store s' = store s \<and> currentHeight s' = currentHeight s \<and>
        (\<exists>t. trace s' = trace s @ t \<and> list_all builderEvent t)"
      by (auto simp: Let_def split: option.splits dest!: quietD [OF quiet_addWitnesses])
  qed
qed

lemma gatherInputs_quiet:
  "gatherInputs cfg kids w ins s = (r, s') \<Longrightarrow>
     store s' = store s \<and> currentHeight s' = currentHeight s \<and> env s' = env s \<and>
     (\<exists>t. trace s' = trace s @ t \<and> list_all builderEvent t)"
proof (induction kids arbitrary: w ins s)
  case Nil
  then show ?case by auto
next
  case (Cons input rest)
  from Cons.prems show ?case
    by (auto split: if_splits dest!: Cons.IH simp: emit_def)
qed

lemma quiet_createSweepTx: "quiet builderEvent (createSweepTx cfg kids)"
proof (rule quietI)
  fix s r s'
  assume a: "createSweepTx cfg kids s = (r, s')"
  obtain w ins s1 where g: "gatherInputs cfg kids (4 * BaseSweepTxSize cfg + WitnessHeaderSize cfg) [] s = ((w, ins), s1)"
    by (metis prod.exhaust)
  with a have "sweepCsvSpendableOutputsTxn cfg w ins s1 = (r, s')"
    by (simp add: createSweepTx_def)
  from quietD [OF quiet_sweepCsv this] gatherInputs_quiet [OF g]
  show "store s' = store s \<and> currentHeight s' = currentHeight s \<and>
        (\<exists>t. trace s' = trace s @ t \<and> list_all builderEvent t)"
    by auto
qed

lemma builderEvent_key: "builderEvent ev \<Longrightarrow> key ev"
  by (cases ev) auto

lemma filter_key_builder: "list_all builderEvent t \<Longrightarrow> filter key t = t"
  by (induction t) (auto simp: builderEvent_key)

lemma FinalizeKinder_stage:
  "FinalizeKinder cfg h x s = (r, s') \<Longrightarrow>
     currentHeight s' = currentHeight s \<and> trace s' = trace s @ [FIN h x] \<and>
     ((isl r \<and> store s' = store s) \<or> (r = Inr () \<and> store s' = finalized h x (store s)))"
  by (auto simp: FinalizeKinder_def bindE_def storeCall_def orFail_def call_def emit_def
       FIN_def finalized_def split: prod.splits option.splits sum.splits)

lemma PurgeHeight_stage:
  "PurgeHeight cfg h s = (r, s') \<Longrightarrow>
     currentHeight s' = currentHeight s \<and> trace s' = trace s @ [PUR h] \<and>
     ((isl r \<and> store s' = store s) \<or> (r = Inr () \<and> store s' = purged h (store s)))"
  by (auto simp: PurgeHeight_def bindE_def storeCall_def orFail_def call_def emit_def
       PUR_def purged_def split: prod.splits option.splits sum.splits)

lemma afterPublish_not_key: "afterPublish ev \<Longrightarrow> \<not> key ev"
  by (cases ev rule: afterPublish.cases) auto

lemma publish_stage:
  "publish cfg who tx s = (r, s') \<Longrightarrow>
     currentHeight s' = currentHeight s \<and> store s' = store s \<and>
     trace s' = trace s @ [EPublishTransaction who tx]"
  by (auto simp: publish_def call_def emit_def split: prod.splits option.splits if_splits)

lemma quiet_registerConf: "quiet afterPublish (registerConf cfg txid hint)"
  unfolding registerConf_def by (rule quiet_call_sum) simp

lemma quiet_publish_crib: "quiet afterPublish (publish cfg (SweepCribOutput h) tx)"
  by (rule quietI) (auto dest!: publish_stage)

lemma quiet_sweepCribOutput: "quiet afterPublish (sweepCribOutput cfg h baby)"
  unfolding sweepCribOutput_def
  by (intro quiet_bindE quiet_publish_crib quiet_registerConf)
     (auto simp: quiet_def emit_def)

lemma quiet_sweepCribOutputs: "quiet afterPublish (sweepCribOutputs cfg h babies)"
proof (induction babies)
  case Nil
  show ?case by (simp add: quiet_def)
next
  case (Cons baby rest)
  show ?case
  proof (rule quietI)
    fix s r s'
    assume a: "sweepCribOutputs cfg h (baby # rest) s = (r, s')"
    obtain r1 s1 where c: "sweepCribOutput cfg h baby s = (r1, s1)"
      by (cases "sweepCribOutput cfg h baby s")
    note q1 = quietD [OF quiet_sweepCribOutput c]
    show "store s' = store s \<and> currentHeight s' = currentHeight s \<and>
        (\<exists>t. trace s' = trace s @ t \<and> list_all afterPublish t)"
    proof (cases r1)
      case (Inl err)
      with a c q1 show ?thesis by simp
    next
      case (Inr u)
      with a c have "sweepCribOutputs cfg h rest s1 = (r, s')" by simp
      from quietD [OF Cons.IH this] q1 show ?thesis by auto
    qed
  qed
qed

lemma sweepGraduatingKinders_stage:
  assumes "sweepGraduatingKinders cfg h tx kids s = (r, s')"
  shows "currentHeight s' = currentHeight s \<and> store s' = store s \<and>
     (\<exists>t. trace s' = trace s @ EPublishTransaction (SweepGraduatingKinders h) tx # t \<and>
          list_all afterPublish t)"
proof -
  obtain r1 s1 where p: "publish cfg (SweepGraduatingKinders h) tx s = (r1, s1)"
    by (cases "publish cfg (SweepGraduatingKinders h) tx s")
  note p1 = publish_stage [OF p]
  show ?thesis
  proof (cases r1)
    case (Inl err)
    with assms p p1 show ?thesis by (simp add: sweepGraduatingKinders_def bindE_def)
  next
    case (Inr u)
    have q: "quiet afterPublish (bindE (registerConf cfg (TxHash cfg tx) h) (\<lambda>confChan s.
       (Inr (), emit (EGo_waitForGraduation h kids confChan) s)))"
      by (intro quiet_bindE quiet_registerConf) (auto simp: quiet_def emit_def)
    from Inr assms p have "bindE (registerConf cfg (TxHash cfg tx) h) (\<lambda>confChan s.
       (Inr (), emit (EGo_waitForGraduation h kids confChan) s)) s1 = (r, s')"
      by (simp add: sweepGraduatingKinders_def bindE_def)
    from quietD [OF q this] p1 show ?thesis by auto
  qed
qed

lemma not_key_filter: "list_all afterPublish t \<Longrightarrow> filter key t = []"
  by (induction t) (auto simp: afterPublish_not_key)

lemma broadcast_stage:
  assumes "(case x of Some tx \<Rightarrow> sweepGraduatingKinders cfg h tx kids | None \<Rightarrow> ret ()) s = (r, s')"
  shows "currentHeight s' = currentHeight s \<and> store s' = store s \<and>
     (\<exists>t. trace s' = trace s @ t \<and> filter key t = PUB h x)"
proof (cases x)
  case None
  with assms show ?thesis by (simp add: ret_def PUB_def)
next
  case (Some tx)
  with assms have "sweepGraduatingKinders cfg h tx kids s = (r, s')" by simp
  from sweepGraduatingKinders_stage [OF this] Some show ?thesis
    by (auto simp: PUB_def not_key_filter)
qed

lemma cribs_stage:
  assumes "sweepCribOutputs cfg h cribs s = (r, s')"
  shows "currentHeight s' = currentHeight s \<and> store s' = store s \<and>
     (\<exists>t. trace s' = trace s @ t \<and> filter key t = [])"
  using quietD [OF quiet_sweepCribOutputs assms] by (auto simp: not_key_filter)

lemma purge_stage:
  assumes "(if PruningDepth cfg \<ge> h then ret () else PurgeHeight cfg (h - PruningDepth cfg)) s = (r, s')"
  shows "currentHeight s' = currentHeight s \<and>
     (\<exists>t. trace s' = trace s @ t \<and>
        ((filter key t = [] \<and> store s' = store s \<and> r = Inr () \<and> h \<le> PruningDepth cfg) \<or>
         (PruningDepth cfg < h \<and> filter key t = [PUR (h - PruningDepth cfg)] \<and>
           ((isl r \<and> store s' = store s) \<or>
            (r = Inr () \<and> store s' = purged (h - PruningDepth cfg) (store s))))))"
proof (cases "PruningDepth cfg \<ge> h")
  case True
  with assms show ?thesis by (simp add: ret_def)
next
  case False
  with assms have "PurgeHeight cfg (h - PruningDepth cfg) s = (r, s')" by simp
  from PurgeHeight_stage [OF this] False show ?thesis
    by (auto simp: PUR_def)
qed

lemma tail_stage:
  assumes "bindE (case x of Some tx \<Rightarrow> sweepGraduatingKinders cfg h tx kids | None \<Rightarrow> ret ()) (\<lambda>_.
           bindE (sweepCribOutputs cfg h cribs) (\<lambda>_.
             if PruningDepth cfg \<ge> h then ret ()
             else PurgeHeight cfg (h - PruningDepth cfg))) s = (r, s')"
  shows "currentHeight s' = currentHeight s \<and>
     (\<exists>t. trace s' = trace s @ t \<and> tailOutcome cfg h x (store s) r (filter key t) (store s'))"
proof -
  obtain r1 s1 where b: "(case x of Some tx \<Rightarrow> sweepGraduatingKinders cfg h tx kids | None \<Rightarrow> ret ()) s = (r1, s1)"
    by (metis prod.exhaust)
  note b1 = broadcast_stage [OF b]
  show ?thesis
  proof (cases r1)
    case (Inl err)
    with assms b have "r = Inl err" "s' = s1" by (simp_all add: bindE_def)
    with b1 show ?thesis by (auto simp: tailOutcome_def)
  next
    case (Inr u)
    obtain r2 s2 where c: "sweepCribOutputs cfg h cribs s1 = (r2, s2)"
      by (metis prod.exhaust)
    note c1 = cribs_stage [OF c]
    show ?thesis
    proof (cases r2)
      case (Inl err)
      with assms b c Inr have "r = Inl err" "s' = s2" by (simp_all add: bindE_def)
      with b1 c1 show ?thesis by (auto simp: tailOutcome_def)
    next
      case Inr2: (Inr u2)
      with assms b c Inr have
        "(if PruningDepth cfg \<ge> h then ret () else PurgeHeight cfg (h - PruningDepth cfg)) s2 = (r, s')"
        by (simp add: bindE_def)
      from purge_stage [OF this] b1 c1 show ?thesis
        by (auto simp: tailOutcome_def)
    qed
  qed
qed

lemma finalize_stage:
  assumes "finalizeClass cfg h ftx kids s = (r, s')"
  shows "currentHeight s' = currentHeight s \<and>
     (\<exists>b. list_all builderEvent b \<and>
        ((isl r \<and> store s' = store s \<and>
            (trace s' = trace s @ b \<or> (\<exists>x. trace s' = trace s @ b @ [FIN h x]))) \<or>
         (\<exists>x. r = Inr x \<and> trace s' = trace s @ b @ [FIN h x] \<and>
              store s' = finalized h x (store s))))"
proof -
  let ?mk = "if kids \<noteq> [] then bindE (createSweepTx cfg kids) (\<lambda>tx. ret (Some tx)) else ret ftx"
  have q: "quiet builderEvent ?mk"
    by (auto intro!: quiet_bindE quiet_createSweepTx quiet_ret)
  obtain r1 s1 where m: "?mk s = (r1, s1)" by (metis prod.exhaust)
  from quietD [OF q m] obtain b where
    b: "store s1 = store s" "currentHeight s1 = currentHeight s" "trace s1 = trace s @ b"
       "list_all builderEvent b"
    by auto
  show ?thesis
  proof (cases r1)
    case (Inl err)
    with assms m have "r = Inl err" "s' = s1" by (simp_all add: finalizeClass_def bindE_def)
    with b show ?thesis by auto
  next
    case (Inr x)
    obtain r2 s2 where f: "FinalizeKinder cfg h x s1 = (r2, s2)" by (metis prod.exhaust)
    note f1 = FinalizeKinder_stage [OF f]
    show ?thesis
    proof (cases r2)
      case Inl2: (Inl err)
      with assms m f Inr have "r = Inl err" "s' = s2"
        by (simp_all add: finalizeClass_def bindE_def)
      with b f1 Inl2 show ?thesis by auto
    next
      case Inr2: (Inr u)
      with assms m f Inr have "r = Inr x" "s' = s2"
        by (simp_all add: finalizeClass_def bindE_def ret_def)
      with b f1 Inr2 show ?thesis by auto
    qed
  qed
qed

lemma key_FIN [simp]: "key (FIN h x)"
  by (simp add: FIN_def)

lemma graduateClass_summary:
  assumes "graduateClass cfg h s = (r, s')"
  shows "currentHeight s' = h \<and>
     (\<exists>t. trace s' = trace s @ t \<and> outcome cfg h (store s) r (filter key t) (store s'))"
proof -
  let ?s0 = "s\<lparr>currentHeight := h\<rparr>"
  obtain r1 s1 where f: "FetchClass cfg h ?s0 = (r1, s1)" by (metis prod.exhaust)
  have nk1: "\<not> key (EStore (OpFetchClass h))" by simp
  from quietD [OF quiet_FetchClass f, of "\<lambda>ev. \<not> key ev"] obtain t1 where
    s1: "store s1 = store s" "currentHeight s1 = h" "trace s1 = trace s @ t1" "filter key t1 = []"
    by (auto simp: filter_none)
  show ?thesis
  proof (cases r1)
    case (Inl err)
    with assms f have "r = Inl err" "s' = s1" by (simp_all add: graduateClass_def bindE_def)
    with s1 show ?thesis by (auto simp: outcome_def)
  next
    case (Inr fetched)
    obtain ftx kids cribs where fetched: "fetched = (ftx, kids, cribs)" by (cases fetched)
    from FetchClass_result [of cfg h ?s0 ftx kids cribs s1] f Inr fetched
    have ftx: "ftx = finalizedTx (store s) h" by simp
    obtain r2 s2 where l: "LastFinalizedHeight cfg s1 = (r2, s2)" by (metis prod.exhaust)
    from quietD [OF quiet_LastFinalizedHeight l, of "\<lambda>ev. \<not> key ev"] obtain t2 where
      s2: "store s2 = store s1" "currentHeight s2 = currentHeight s1" "trace s2 = trace s1 @ t2"
          "filter key t2 = []"
      by (auto simp: filter_none)
    show ?thesis
    proof (cases r2)
      case Inl2: (Inl err)
      with assms f l Inr fetched have "r = Inl err" "s' = s2"
        by (simp_all add: graduateClass_def bindE_def)
      with s1 s2 show ?thesis by (auto simp: outcome_def)
    next
      case Inr2: (Inr lfh)
      from LastFinalizedHeight_result [of cfg s1 lfh s2] l Inr2 s1
      have lfh: "lfh = lastFinalizedHeight (store s)" by simp
      let ?tail = "\<lambda>x. bindE (case x of Some tx \<Rightarrow> sweepGraduatingKinders cfg h tx kids | None \<Rightarrow> ret ()) (\<lambda>_.
           bindE (sweepCribOutputs cfg h cribs) (\<lambda>_.
             if PruningDepth cfg \<ge> h then ret ()
             else PurgeHeight cfg (h - PruningDepth cfg)))"
      from assms f l Inr fetched Inr2 have g:
        "bindE (if h > lfh then finalizeClass cfg h ftx kids else ret ftx) ?tail s2 = (r, s')"
        by (simp add: graduateClass_def bindE_def)
      show ?thesis
      proof (cases "h > lfh")
        case False
        with g have "?tail ftx s2 = (r, s')" by (simp add: bindE_def ret_def)
        from tail_stage [OF this] obtain t3 where
          "currentHeight s' = currentHeight s2" "trace s' = trace s2 @ t3"
          "tailOutcome cfg h ftx (store s2) r (filter key t3) (store s')" by auto
        with s1 s2 False ftx lfh show ?thesis by (auto simp: outcome_def)
      next
        case True
        obtain r3 s3 where fc: "finalizeClass cfg h ftx kids s2 = (r3, s3)" by (metis prod.exhaust)
        from finalize_stage [OF fc] obtain b where
          b: "currentHeight s3 = currentHeight s2" "list_all builderEvent b"
             "(isl r3 \<and> store s3 = store s2 \<and>
                (trace s3 = trace s2 @ b \<or> (\<exists>x. trace s3 = trace s2 @ b @ [FIN h x]))) \<or>
              (\<exists>x. r3 = Inr x \<and> trace s3 = trace s2 @ b @ [FIN h x] \<and>
                 store s3 = finalized h x (store s2))"
          by blast
        show ?thesis
        proof (cases r3)
          case Inl3: (Inl err)
          with g True fc have "r = Inl err" "s' = s3" by (simp_all add: bindE_def)
          have st: "store s' = store s" "currentHeight s' = h" "isl r"
            using b Inl3 s1 s2 \<open>r = Inl err\<close> \<open>s' = s3\<close> by auto
          from b Inl3 \<open>s' = s3\<close> consider
            (none) "trace s' = trace s2 @ b" | (fin) x where "trace s' = trace s2 @ b @ [FIN h x]"
            by auto
          then show ?thesis
          proof cases
            case none
            then have "trace s' = trace s @ (t1 @ t2 @ b)" using s1 s2 by simp
            moreover have "filter key (t1 @ t2 @ b) = b"
              using s1 s2 b by (simp add: filter_key_builder)
            moreover have "outcome cfg h (store s) r b (store s')"
              unfolding outcome_def using st True lfh b by auto
            ultimately show ?thesis using st by metis
          next
            case fin
            then have "trace s' = trace s @ (t1 @ t2 @ b @ [FIN h x])" using s1 s2 by simp
            moreover have "filter key (t1 @ t2 @ b @ [FIN h x]) = b @ [FIN h x]"
              using s1 s2 b by (simp add: filter_key_builder)
            moreover have "outcome cfg h (store s) r (b @ [FIN h x]) (store s')"
              unfolding outcome_def using st True lfh b by auto
            ultimately show ?thesis using st by metis
          qed
        next
          case Inr3: (Inr x)
          with g True fc have "?tail x s3 = (r, s')" by (simp add: bindE_def)
          from tail_stage [OF this] obtain t3 where t3:
            "currentHeight s' = currentHeight s3" "trace s' = trace s3 @ t3"
            "tailOutcome cfg h x (store s3) r (filter key t3) (store s')" by auto
          from b Inr3 have "trace s3 = trace s2 @ b @ [FIN h x]" "store s3 = finalized h x (store s2)"
            by auto
          then have "trace s' = trace s @ (t1 @ t2 @ b @ [FIN h x] @ t3)"
            using s1 s2 t3 by simp
          moreover have "filter key (t1 @ t2 @ b @ [FIN h x] @ t3) = b @ FIN h x # filter key t3"
            using s1 s2 b by (simp add: filter_key_builder)
          moreover have "outcome cfg h (store s) r (b @ FIN h x # filter key t3) (store s')"
            unfolding outcome_def
            using t3 b s1 s2 True lfh \<open>store s3 = finalized h x (store s2)\<close> by auto
          moreover have "currentHeight s' = h" using t3 b s1 s2 by simp
          ultimately show ?thesis by metis
        qed
      qed
    qed
  qed
qed

lemma filter_filter_key: "(\<And>ev. P ev \<Longrightarrow> key ev) \<Longrightarrow> filter P t = filter P (filter key t)"
  by (induction t) auto

lemma isPurge_key: "isPurgeHeight ev \<Longrightarrow> key ev"
  by (cases ev rule: isPurgeHeight.cases) auto

lemma isFinalize_key: "isFinalizeKinder ev \<Longrightarrow> key ev"
  by (cases ev rule: isFinalizeKinder.cases) auto

lemma purge_builder: "list_all builderEvent b \<Longrightarrow> filter isPurgeHeight b = []"
  by (induction b) (auto elim: builderEvent.elims)

lemma purge_PUB [simp]: "filter isPurgeHeight (PUB h x) = []"
  by (cases x) (auto simp: PUB_def)

lemma purge_tailOutcome:
  assumes "tailOutcome cfg h x st r k st'"
  shows "(filter isPurgeHeight k = [] \<or>
          (PruningDepth cfg < h \<and> filter isPurgeHeight k = [EStore (OpPurgeHeight (h - PruningDepth cfg))])) \<and>
         (r = Inr () \<longrightarrow> (filter isPurgeHeight k \<noteq> [] \<longleftrightarrow> PruningDepth cfg < h))"
  using assms by (auto simp: tailOutcome_def PUR_def)

lemma purge_outcome:
  assumes "outcome cfg H st r k st'"
  shows "(filter isPurgeHeight k = [] \<or>
          (PruningDepth cfg < H \<and> filter isPurgeHeight k = [EStore (OpPurgeHeight (H - PruningDepth cfg))])) \<and>
         (r = Inr () \<longrightarrow> (filter isPurgeHeight k \<noteq> [] \<longleftrightarrow> PruningDepth cfg < H))"
proof -
  from assms consider
    (early) "isl r" "k = []"
  | (build) b where "isl r" "list_all builderEvent b" "k = b \<or> (\<exists>x. k = b @ [FIN H x])"
  | (old) "tailOutcome cfg H (finalizedTx st H) st r k st'"
  | (new) b x k' where "list_all builderEvent b" "k = b @ FIN H x # k'"
      "tailOutcome cfg H x (finalized H x st) r k' st'"
    unfolding outcome_def by blast
  then show ?thesis
  proof cases
    case early
    then show ?thesis by auto
  next
    case build
    then show ?thesis by (auto simp: purge_builder FIN_def)
  next
    case old
    from purge_tailOutcome [OF this] show ?thesis .
  next
    case new
    from purge_tailOutcome [OF new(3)] new(1,2) show ?thesis
      by (simp add: purge_builder FIN_def)
  qed
qed

subsection \<open>One transaction per class\<close>

lemma finalize_builder: "list_all builderEvent b \<Longrightarrow> filter isFinalizeKinder b = []"
  by (induction b) (auto elim: builderEvent.elims)

lemma sweeps_append [simp]: "sweeps H (t @ u) = sweeps H t \<union> sweeps H u"
  by (auto simp: sweeps_def)

lemma sweeps_Nil [simp]: "sweeps H [] = {}"
  by (simp add: sweeps_def)

lemma sweeps_Cons_FIN [simp]: "sweeps H (FIN h x # t) = sweeps H t"
  by (auto simp: sweeps_def FIN_def)

lemma sweeps_PUR [simp]: "sweeps H [PUR h] = {}"
  by (auto simp: sweeps_def PUR_def)

lemma sweeps_PUB [simp]: "sweeps H (PUB h x) = (if h = H then set_option x else {})"
  by (cases x) (auto simp: sweeps_def PUB_def)

lemma sweeps_builder: "list_all builderEvent b \<Longrightarrow> sweeps H b = {}"
  by (induction b) (auto simp: sweeps_def elim: builderEvent.elims)

lemma sweeps_key: "sweeps H t = sweeps H (filter key t)"
  by (auto simp: sweeps_def)

lemma pinned_tail:
  assumes "tailOutcome cfg h x st r k st'" "pinned H st txs"
    "h = H \<longrightarrow> H \<le> lastFinalizedHeight st \<and> finalizedTx st H = x"
  shows "pinned H st' (txs \<union> sweeps H k)"
  using assms
  by (auto simp: tailOutcome_def pinned_def purged_def split: option.splits if_splits)

lemma pinned_finalized:
  assumes "pinned H st txs" "lastFinalizedHeight st < h"
  shows "pinned H (finalized h x st) txs"
  using assms
  by (auto simp: pinned_def finalized_def split: option.splits)

lemma pinned_outcome:
  assumes "outcome cfg h st r k st'" "pinned H st txs"
  shows "pinned H st' (txs \<union> sweeps H k)"
proof -
  from assms(1) consider
    (early) "st' = st" "k = []"
  | (build) b where "st' = st" "list_all builderEvent b" "k = b \<or> (\<exists>x. k = b @ [FIN h x])"
  | (old) "h \<le> lastFinalizedHeight st" "tailOutcome cfg h (finalizedTx st h) st r k st'"
  | (new) b x k' where "lastFinalizedHeight st < h" "list_all builderEvent b" "k = b @ FIN h x # k'"
      "tailOutcome cfg h x (finalized h x st) r k' st'"
    unfolding outcome_def by blast
  then show ?thesis
  proof cases
    case early
    with assms(2) show ?thesis by simp
  next
    case build
    then have "sweeps H k = {}" by (auto simp: sweeps_builder)
    with build assms(2) show ?thesis by simp
  next
    case old
    have "h = H \<longrightarrow> H \<le> lastFinalizedHeight st \<and> finalizedTx st H = finalizedTx st h"
      using old(1) by auto
    from pinned_tail [OF old(2) assms(2) this] show ?thesis .
  next
    case new
    have p: "pinned H (finalized h x st) txs"
      by (rule pinned_finalized [OF assms(2) new(1)])
    have "h = H \<longrightarrow> H \<le> lastFinalizedHeight (finalized h x st) \<and> finalizedTx (finalized h x st) H = x"
      by (simp add: finalized_def)
    from pinned_tail [OF new(4) p this] have "pinned H st' (txs \<union> sweeps H k')" .
    moreover have "sweeps H k = sweeps H k'"
      using new(2,3) by (simp add: sweeps_builder)
    ultimately show ?thesis by simp
  qed
qed

lemma pinned_graduateClass:
  assumes "pinned H (store s) (sweeps H (trace s))"
  shows "pinned H (store (snd (graduateClass cfg h s))) (sweeps H (trace (snd (graduateClass cfg h s))))"
proof -
  obtain r s' where g: "graduateClass cfg h s = (r, s')" by (metis prod.exhaust)
  from graduateClass_summary [OF g] obtain t where
    t: "trace s' = trace s @ t" "outcome cfg h (store s) r (filter key t) (store s')" by auto
  from pinned_outcome [OF t(2) assms] have "pinned H (store s') (sweeps H (trace s) \<union> sweeps H (filter key t))" .
  then have "pinned H (store s') (sweeps H (trace s'))"
    using t(1) sweeps_key [of H t] by simp
  with g show ?thesis by simp
qed

lemma pinned_graduateClasses:
  "pinned H (store s) (sweeps H (trace s)) \<Longrightarrow>
   pinned H (store (graduateClasses cfg epochs s)) (sweeps H (trace (graduateClasses cfg epochs s)))"
  by (induction epochs arbitrary: s) (auto intro: pinned_graduateClass)

lemma pinned_card: "pinned H st txs \<Longrightarrow> card (f ` txs) \<le> 1"
proof -
  assume "pinned H st txs"
  then obtain tx where "txs \<subseteq> {tx}"
    by (auto simp: pinned_def split: option.splits)
  then have "f ` txs \<subseteq> {f tx}" by auto
  then have "card (f ` txs) \<le> card {f tx}" by (intro card_mono) auto
  then show ?thesis by simp
qed

lemma tail_events:
  "tailOutcome cfg H x st0 r k' st' \<Longrightarrow>
     filter isFinalizeKinder k' = [] \<and> filter builderEvent k' = [] \<and> sweeps H k' \<subseteq> set_option x \<and>
     (\<forall>h. h \<noteq> H \<longrightarrow> sweeps h k' = {})"
  by (cases x) (auto simp: tailOutcome_def PUB_def PUR_def sweeps_def)

lemma finalize_outcome:
  assumes "outcome cfg H st r k st'"
  shows "(filter isFinalizeKinder k = [] \<or>
          (lastFinalizedHeight st < H \<and> (\<exists>x. filter isFinalizeKinder k = [FIN H x]))) \<and>
         (H \<le> lastFinalizedHeight st \<longrightarrow>
            filter builderEvent k = [] \<and> sweeps H k \<subseteq> set_option (finalizedTx st H) \<and>
            (\<forall>h. h \<noteq> H \<longrightarrow> sweeps h k = {}))"
proof -
  note tl = tail_events
  from assms consider
    (early) "st' = st" "k = []"
  | (build) b where "lastFinalizedHeight st < H" "list_all builderEvent b" "k = b \<or> (\<exists>x. k = b @ [FIN H x])"
  | (old) "H \<le> lastFinalizedHeight st" "tailOutcome cfg H (finalizedTx st H) st r k st'"
  | (new) b x k' where "lastFinalizedHeight st < H" "list_all builderEvent b" "k = b @ FIN H x # k'"
      "tailOutcome cfg H x (finalized H x st) r k' st'"
    unfolding outcome_def by blast
  then show ?thesis
  proof cases
    case early
    then show ?thesis by simp
  next
    case build
    then show ?thesis by (auto simp: finalize_builder FIN_def)
  next
    case old
    from tl [OF old(2)] old(1) show ?thesis by simp
  next
    case new
    from tl [OF new(4)] new(1,2,3) show ?thesis by (auto simp: finalize_builder FIN_def)
  qed
qed

lemma filter_via_key: "(\<And>ev. P ev \<Longrightarrow> key ev) \<Longrightarrow> filter P (filter key t) = filter P t"
  by (induction t) auto

lemma finalizedNursery_store:
  "lastFinalizedHeight (store finalizedNursery) = 244"
  by (simp add: finalizedNursery_def sampleCfg_def sampleNursery_def run_defs)

subsection \<open>The sweep builder\<close>

lemma gatherInputs_eq:
  "gatherInputs cfg kids w ins s =
     ((w + sum_list (map (\<lambda>input. 4 * InputSize cfg + witnessWeight cfg (witnessType input))
                      (filter (recognized cfg) kids)),
       ins @ filter (recognized cfg) kids),
      warned (warnings cfg kids) s)"
proof (induction kids arbitrary: w ins s)
  case Nil
  show ?case by (simp add: warned_def warnings_def)
next
  case (Cons input rest)
  show ?case
    by (simp add: Cons.IH recognized_def witnessWeight_def warned_def warnings_def emit_def
        algebra_simps)
qed

lemma filter_recognized_idem:
  "filter (recognized cfg) (filter (recognized cfg) kids) = filter (recognized cfg) kids"
  by simp



lemma totalSum_eq: "totalSum inputs = sum_list (map amt inputs)"
proof -
  have "\<And>a. foldl (\<lambda>acc o'. acc + amt o') a inputs = a + sum_list (map amt inputs)"
    by (induction inputs) (simp_all add: algebra_simps)
  then show ?thesis by (simp add: totalSum_def)
qed

lemma addInputs_eq:
  "addInputs inputs sweepTx = sweepTx\<lparr>TxIn := TxIn sweepTx @ map txInOf inputs\<rparr>"
  by (induction inputs arbitrary: sweepTx) (simp_all add: AddTxIn_def txInOf_def)

lemma map_update_same: "(map f xs)[i := f (xs ! i)] = map f xs"
  by (cases "i < length xs") (simp_all add: list_update_same_conv list_update_beyond)

lemma setWitness_keeps:
  "Version (setWitness idx w tx) = Version tx"
  "TxOut (setWitness idx w tx) = TxOut tx"
  "LockTime (setWitness idx w tx) = LockTime tx"
  "map PreviousOutPoint (TxIn (setWitness idx w tx)) = map PreviousOutPoint (TxIn tx)"
  "map Sequence (TxIn (setWitness idx w tx)) = map Sequence (TxIn tx)"
  by (simp_all add: setWitness_def map_update map_update_same)

lemma addWitnesses_keeps:
  "addWitnesses cfg inputs idx tx s = (Inr tx', s') \<Longrightarrow>
     Version tx' = Version tx \<and> TxOut tx' = TxOut tx \<and> LockTime tx' = LockTime tx \<and>
     map PreviousOutPoint (TxIn tx') = map PreviousOutPoint (TxIn tx) \<and>
     map Sequence (TxIn tx') = map Sequence (TxIn tx)"
proof (induction inputs arbitrary: idx tx s)
  case Nil
  then show ?case by simp
next
  case (Cons input rest)
  then show ?case
    by (auto simp: setWitness_keeps split: prod.splits sum.splits dest!: Cons.IH)
qed

lemma sweepCsv_result:
  assumes "sweepCsvSpendableOutputsTxn cfg txWeight inputs s = (Inr sweepTx, s')"
  shows "\<exists>pkScript e1 feePerWeight e2.
     GenSweepScript cfg (env s) = (Inr pkScript, e1) \<and>
     EstimateFeePerWeight cfg 1 e1 = (feePerWeight, e2) \<and>
     Version sweepTx = 2 \<and> LockTime sweepTx = 0 \<and>
     TxOut sweepTx = [\<lparr>Value = totalSum inputs - txWeight * feePerWeight, PkScript = pkScript\<rparr>] \<and>
     map PreviousOutPoint (TxIn sweepTx) = map outpoint inputs \<and>
     map Sequence (TxIn sweepTx) = map blocksToMaturity inputs"
proof -
  obtain r1 e1 where g: "GenSweepScript cfg (env s) = (r1, e1)" by (metis prod.exhaust)
  obtain pkScript where r1: "r1 = Inr pkScript"
    using assms g by (cases r1) (auto simp: sweepCsvSpendableOutputsTxn_def bindE_def call_def)
  obtain feePerWeight e2 where f: "EstimateFeePerWeight cfg 1 e1 = (feePerWeight, e2)"
    by (metis prod.exhaust)
  let ?tx = "addInputs inputs
     (AddTxOut \<lparr>Value = totalSum inputs - txWeight * feePerWeight, PkScript = pkScript\<rparr> (NewMsgTx 2))"
  from assms g r1 f obtain s2 where w: "addWitnesses cfg inputs 0 ?tx s2 = (Inr sweepTx, s')"
    by (auto simp: sweepCsvSpendableOutputsTxn_def bindE_def call_def emit_def Let_def
        split: option.splits)
  have tx: "Version ?tx = 2" "LockTime ?tx = 0"
    "TxOut ?tx = [\<lparr>Value = totalSum inputs - txWeight * feePerWeight, PkScript = pkScript\<rparr>]"
    "map PreviousOutPoint (TxIn ?tx) = map outpoint inputs"
    "map Sequence (TxIn ?tx) = map blocksToMaturity inputs"
    by (simp_all add: addInputs_eq AddTxOut_def NewMsgTx_def txInOf_def comp_def)
  from addWitnesses_keeps [OF w] tx g r1 f show ?thesis by auto
qed



subsection \<open>Ingress\<close>

lemma amt_makeKidOutput [simp]: "amt (makeKidOutput op origin btm wt sd) = Value (Output sd)"
  by (simp add: makeKidOutput_def makeBreachedOutput_def breachedOutput.defs kidOutput.defs)

lemma amt_makeBabyOutput [simp]:
  "amt (makeBabyOutput op origin btm wt htlcRes) = Value (Output (SweepSignDesc htlcRes))"
  by (simp add: makeBabyOutput_def makeKidOutput_def makeBreachedOutput_def
      breachedOutput.defs kidOutput.defs babyOutput.defs)

lemma baby_fields [simp]:
  "outpoint (makeBabyOutput op origin btm wt htlcRes) = op"
  "blocksToMaturity (makeBabyOutput op origin btm wt htlcRes) = btm"
  "originChanPoint (makeBabyOutput op origin btm wt htlcRes) = origin"
  "witnessType (makeBabyOutput op origin btm wt htlcRes) = wt"
  "confHeight (makeBabyOutput op origin btm wt htlcRes) = 0"
  "expiry (makeBabyOutput op origin btm wt htlcRes) = Expiry htlcRes"
  "timeoutTx (makeBabyOutput op origin btm wt htlcRes) = SignedTimeoutTx htlcRes"
  "signDesc (makeBabyOutput op origin btm wt htlcRes) = SweepSignDesc htlcRes"
  by (simp_all add: makeBabyOutput_def makeKidOutput_def makeBreachedOutput_def
      breachedOutput.defs kidOutput.defs babyOutput.defs)

lemma htlcOutputs_eq:
  "htlcOutputs cfg closeSummary resolutions acc =
     acc @ map (babyOf cfg closeSummary) (filter (\<lambda>htlcRes. positive (SweepSignDesc htlcRes)) resolutions)"
  by (induction resolutions arbitrary: acc) (simp_all add: babyOf_def positive_def Let_def)

lemma selfOutput_eq:
  "selfOutput cfg closeSummary =
     (case SelfOutputSignDesc closeSummary of
        None \<Rightarrow> None
      | Some sd \<Rightarrow>
          if positive sd then
            Some (makeKidOutput (SelfOutpoint closeSummary) (ChanPoint closeSummary)
                    (SelfOutputMaturity closeSummary) (CommitmentTimeLock cfg) sd)
          else None)"
  by (simp add: selfOutput_def positive_def Let_def split: option.splits)

subsection \<open>The codec\<close>

lemma bit_byte_at:
  "bit (push_bit k (ucast (ucast (drop_bit k v) :: byte)) :: 'a::len word) n \<longleftrightarrow>
     k \<le> n \<and> n < k + 8 \<and> bit (v :: 'a word) n"
  by (auto simp: bit_simps dest: bit_imp_le_length)

lemma bit_byte_low:
  "bit (ucast (ucast v :: byte) :: 'a::len word) n \<longleftrightarrow> n < 8 \<and> bit (v :: 'a word) n"
  by (auto simp: bit_simps dest: bit_imp_le_length)

lemma Uint16_Put: "Uint16 (PutUint16 v @ rest) = v"
proof -
  have "ucast (ucast v :: byte) OR push_bit 8 (ucast (ucast (drop_bit 8 v) :: byte)) = v"
  proof (rule bit_word_eqI)
    fix n assume "n < LENGTH(16)"
    then show "bit (ucast (ucast v :: byte) OR push_bit 8 (ucast (ucast (drop_bit 8 v) :: byte)) :: uint16) n = bit v n"
      unfolding bit_or_iff bit_byte_at bit_byte_low by auto
  qed
  then show ?thesis by (simp add: PutUint16_def)
qed

lemma Uint32_Put: "Uint32 (PutUint32 v @ rest) = v"
proof -
  have "ucast (ucast v :: byte) OR push_bit 8 (ucast (ucast (drop_bit 8 v) :: byte)) OR
        push_bit 16 (ucast (ucast (drop_bit 16 v) :: byte)) OR
        push_bit 24 (ucast (ucast (drop_bit 24 v) :: byte)) = v"
  proof (rule bit_word_eqI)
    fix n assume "n < LENGTH(32)"
    then show "bit (ucast (ucast v :: byte) OR push_bit 8 (ucast (ucast (drop_bit 8 v) :: byte)) OR
        push_bit 16 (ucast (ucast (drop_bit 16 v) :: byte)) OR
        push_bit 24 (ucast (ucast (drop_bit 24 v) :: byte)) :: uint32) n = bit v n"
      unfolding bit_or_iff bit_byte_at bit_byte_low by auto
  qed
  then show ?thesis by (simp add: PutUint32_def)
qed

lemma Uint64_Put: "Uint64 (PutUint64 v @ rest) = v"
proof -
  have "ucast (ucast v :: byte) OR push_bit 8 (ucast (ucast (drop_bit 8 v) :: byte)) OR
        push_bit 16 (ucast (ucast (drop_bit 16 v) :: byte)) OR
        push_bit 24 (ucast (ucast (drop_bit 24 v) :: byte)) OR
        push_bit 32 (ucast (ucast (drop_bit 32 v) :: byte)) OR
        push_bit 40 (ucast (ucast (drop_bit 40 v) :: byte)) OR
        push_bit 48 (ucast (ucast (drop_bit 48 v) :: byte)) OR
        push_bit 56 (ucast (ucast (drop_bit 56 v) :: byte)) = v"
  proof (rule bit_word_eqI)
    fix n assume "n < LENGTH(64)"
    then show "bit (ucast (ucast v :: byte) OR push_bit 8 (ucast (ucast (drop_bit 8 v) :: byte)) OR
        push_bit 16 (ucast (ucast (drop_bit 16 v) :: byte)) OR
        push_bit 24 (ucast (ucast (drop_bit 24 v) :: byte)) OR
        push_bit 32 (ucast (ucast (drop_bit 32 v) :: byte)) OR
        push_bit 40 (ucast (ucast (drop_bit 40 v) :: byte)) OR
        push_bit 48 (ucast (ucast (drop_bit 48 v) :: byte)) OR
        push_bit 56 (ucast (ucast (drop_bit 56 v) :: byte)) :: uint64) n = bit v n"
      unfolding bit_or_iff bit_byte_at bit_byte_low by auto
  qed
  then show ?thesis by (simp add: PutUint64_def)
qed

lemma thenE_Inr [simp]: "thenE (Inr a) f = f a"
  by (simp add: thenE_def)

lemma thenE_Inl [simp]: "thenE (Inl e) f = Inl e"
  by (simp add: thenE_def)

lemma length_Put [simp]:
  "length (PutUint16 a) = 2" "length (PutUint32 b) = 4" "length (PutUint64 c) = 8"
  by (simp_all add: PutUint16_def PutUint32_def PutUint64_def)

lemma Read_exact:
  "length bs = n \<Longrightarrow> 0 < n \<Longrightarrow> Read n (bs @ rest) = Inr (bs, rest)"
  by (auto simp: Read_def)

lemma copy_exact: "length src = length dst \<Longrightarrow> copy dst src = src"
  by (simp add: copy_def)

lemma ReadFull_length:
  "ReadFull want got l = Inr (bs, l') \<Longrightarrow> length bs = length got + want"
proof (induction want got l rule: ReadFull.induct)
  case (1 want got l)
  show ?case
  proof (cases "want = 0")
    case True
    with "1.prems" show ?thesis by (simp add: ReadFull.simps)
  next
    case False
    with "1.prems" obtain rd l1 where
      rd: "LimitedReader_Read want l = Inr (rd, l1)"
      and rec: "ReadFull (want - length rd) (got @ rd) l1 = Inr (bs, l')"
      by (subst (asm) ReadFull.simps) (auto split: sum.splits)
    from rd have "length rd \<le> want"
      by (auto simp: LimitedReader_Read_def Read_def thenE_def split: if_splits)
    with "1.IH" [OF False rd refl rec] show ?thesis by simp
  qed
qed

lemma ReadFull_exact:
  assumes "length bs = n" "int n \<le> N l" "R l = bs @ rest"
  shows "ReadFull n got l = Inr (got @ bs, \<lparr>R = rest, N = N l - int n\<rparr>)"
proof (cases "n = 0")
  case True
  with assms show ?thesis by (subst ReadFull.simps) simp
next
  case False
  with assms have "LimitedReader_Read n l = Inr (bs, \<lparr>R = rest, N = N l - int n\<rparr>)"
    by (auto simp: LimitedReader_Read_def Read_def)
  with False assms(1) show ?thesis
    by (subst ReadFull.simps) (simp add: ReadFull.simps [of 0])
qed

lemma ReadVarInt_small:
  assumes "b < 0xfd" "1 \<le> N l" "R l = b # rest"
  shows "ReadVarInt l = Inr (ucast b, \<lparr>R = rest, N = N l - 1\<rparr>)"
proof -
  have "ReadFull 1 [] l = Inr ([] @ [b], \<lparr>R = rest, N = N l - int 1\<rparr>)"
    by (rule ReadFull_exact) (use assms in simp_all)
  with assms(1) show ?thesis
    by (auto simp: ReadVarInt_def Let_def)
qed

lemma writeOutpoint_eq:
  "length (Hash o') = 32 \<Longrightarrow> writeOutpoint o' w = Inr (w @ outpointBytes o')"
  by (simp add: writeOutpoint_def WriteVarBytes_def WriteVarInt_def Write_def outpointBytes_def)

lemma readOutpoint_exact:
  assumes "length (Hash o') = 32" "length (Hash o0) = 32"
  shows "readOutpoint \<lparr>R = outpointBytes o' @ rest, N = 40\<rparr> o0 = Inr (o', \<lparr>R = rest, N = 3\<rparr>)"
proof -
  let ?l = "\<lparr>R = outpointBytes o' @ rest, N = 40\<rparr>"
  have v: "ReadVarInt ?l = Inr (ucast (32 :: byte), \<lparr>R = Hash o' @ PutUint32 (Index o') @ rest, N = N ?l - 1\<rparr>)"
    by (rule ReadVarInt_small) (simp_all add: outpointBytes_def)
  have f: "ReadFull 32 [] \<lparr>R = Hash o' @ PutUint32 (Index o') @ rest, N = 39\<rparr> =
      Inr ([] @ Hash o', \<lparr>R = PutUint32 (Index o') @ rest, N = N \<lparr>R = Hash o' @ PutUint32 (Index o') @ rest, N = 39\<rparr> - int 32\<rparr>)"
    by (rule ReadFull_exact) (use assms in simp_all)
  have b: "ReadVarBytes ?l 32 ''prevout'' = Inr (Hash o', \<lparr>R = PutUint32 (Index o') @ rest, N = 7\<rparr>)"
    using v f by (simp add: ReadVarBytes_def)
  have r: "LimitedReader_Read 4 \<lparr>R = PutUint32 (Index o') @ rest, N = 7\<rparr> =
      Inr (PutUint32 (Index o'), \<lparr>R = rest, N = 3\<rparr>)"
    by (simp add: LimitedReader_Read_def Read_exact)
  have u: "Uint32 (PutUint32 (Index o')) = Index o'"
    using Uint32_Put [of "Index o'" "[]"] by simp
  show ?thesis
    using b r u assms by (simp add: readOutpoint_def copy_exact)
qed

lemma kidOutput_Encode_eq:
  assumes "wellFormed k"
  shows "kidOutput_Encode c k w =
     thenE (signDescriptorBytes c (signDesc k)) (\<lambda>sdb. Inr (w @ kidBytes k @ sdb))"
  using assms
  by (simp add: kidOutput_Encode_def wellFormed_def writeOutpoint_eq Write_def
      WriteSignDescriptor_def kidBytes_def)

lemma Uint_take:
  "Uint64 (PutUint64 a) = a" "Uint32 (take 4 (PutUint32 b @ xs)) = b"
  "Uint16 (take 2 (PutUint16 c @ ys)) = c" "Uint32 (PutUint32 b) = b" "Uint16 (PutUint16 c) = c"
  using Uint64_Put [of a "[]"] Uint32_Put [of b "[]"] Uint16_Put [of c "[]"]
  by simp_all

lemma kidOutput_Decode_exact:
  assumes c: "selfDelimited c" and k: "wellFormed k" and k0: "wellFormed k0"
    and sd: "signDescriptorBytes c (signDesc k) = Inr sdb"
  shows "kidOutput_Decode c k0 (kidBytes k @ sdb @ rest) =
     Inr (k0\<lparr>amt := amt k, outpoint := outpoint k, originChanPoint := originChanPoint k,
             blocksToMaturity := blocksToMaturity k, confHeight := confHeight k,
             witnessType := witnessType k, signDesc := signDesc k\<rparr>, rest)"
proof -
  let ?r1 = "outpointBytes (outpoint k) @ outpointBytes (originChanPoint k) @
     PutUint32 (blocksToMaturity k) @ PutUint32 (confHeight k) @ PutUint16 (witnessType k) @
     sdb @ rest"
  let ?r2 = "outpointBytes (originChanPoint k) @
     PutUint32 (blocksToMaturity k) @ PutUint32 (confHeight k) @ PutUint16 (witnessType k) @
     sdb @ rest"
  let ?r3 = "PutUint32 (blocksToMaturity k) @ PutUint32 (confHeight k) @
     PutUint16 (witnessType k) @ sdb @ rest"
  let ?r4 = "PutUint32 (confHeight k) @ PutUint16 (witnessType k) @ sdb @ rest"
  let ?r5 = "PutUint16 (witnessType k) @ sdb @ rest"
  have a: "Read 8 (kidBytes k @ sdb @ rest) = Inr (PutUint64 (amt k), ?r1)"
    unfolding kidBytes_def append_assoc by (rule Read_exact) simp_all
  have o1: "readOutpoint \<lparr>R = ?r1, N = 40\<rparr> (outpoint k0) =
      Inr (outpoint k, \<lparr>R = ?r2, N = 3\<rparr>)"
    by (rule readOutpoint_exact) (use k k0 in \<open>simp_all add: wellFormed_def\<close>)
  have o2: "readOutpoint \<lparr>R = ?r2, N = 40\<rparr> (originChanPoint k0) =
      Inr (originChanPoint k, \<lparr>R = ?r3, N = 3\<rparr>)"
    by (rule readOutpoint_exact) (use k k0 in \<open>simp_all add: wellFormed_def\<close>)
  have b: "Read 4 ?r3 = Inr (PutUint32 (blocksToMaturity k), ?r4)"
    by (rule Read_exact) simp_all
  have h: "Read 4 ?r4 = Inr (PutUint32 (confHeight k), ?r5)"
    by (rule Read_exact) simp_all
  have w: "Read 2 ?r5 = Inr (PutUint16 (witnessType k), sdb @ rest)"
    by (rule Read_exact) simp_all
  have d: "ReadSignDescriptor c (sdb @ rest) = Inr (signDesc k, rest)"
    using c sd by (simp add: selfDelimited_def)
  have cp: "\<And>p q :: byte list. length p = 8 \<Longrightarrow> length q \<le> 8 \<Longrightarrow> copy p q = q @ drop (length q) p"
    by (simp add: copy_def)
  show ?thesis
    by (simp add: kidOutput_Decode_def a o1 o2 b h w d cp copy_exact Uint_take Let_def)
qed

lemma split_byte:
  "(x :: nat) mod 2 ^ (n + 8) = (x div 2 ^ n mod 256) * 2 ^ n + x mod 2 ^ n"
  using mod_mult2_eq [of x "2 ^ n" 256] by (simp add: power_add mult.commute)

lemma unat_drop: "unat (drop_bit n (v :: 'a::len word)) = unat v div 2 ^ n"
  using drop_bit_eq_div [of n "unat v"] by (simp only: unat_drop_bit_eq)

lemma unat_byte0: "unat (ucast (v :: 'a::len word) :: byte) = unat v mod 256"
  by (simp add: unsigned_ucast_eq take_bit_eq_mod)

lemma bigEndian_PutUint16: "bigEndian (PutUint16 v) = unat v"
proof -
  have "unat v < 2 ^ 16" using unsigned_less [of v, where ?'a = nat] by simp
  then have "unat v = unat v mod 2 ^ 16" by simp
  also have "\<dots> = (unat v div 2 ^ 8 mod 256) * 2 ^ 8 + unat v mod 2 ^ 8"
    using split_byte [of "unat v" 8] by simp
  finally show ?thesis
    by (simp add: PutUint16_def unat_byte0 unat_drop)
qed

lemma bigEndian_PutUint32: "bigEndian (PutUint32 v) = unat v"
proof -
  let ?x = "unat v"
  have lt: "?x < 2 ^ 32" using unsigned_less [of v, where ?'a = nat] by simp
  then have "?x = ?x mod 2 ^ 32" by simp
  also have "\<dots> = (?x div 2 ^ 24 mod 256) * 2 ^ 24 + ?x mod 2 ^ 24"
    using split_byte [of ?x 24] by simp
  also have "?x mod 2 ^ 24 = (?x div 2 ^ 16 mod 256) * 2 ^ 16 + ?x mod 2 ^ 16"
    using split_byte [of ?x 16] by simp
  also have "?x mod 2 ^ 16 = (?x div 2 ^ 8 mod 256) * 2 ^ 8 + ?x mod 2 ^ 8"
    using split_byte [of ?x 8] by simp
  finally have e: "?x = (?x div 2 ^ 24 mod 256) * 2 ^ 24 +
      ((?x div 2 ^ 16 mod 256) * 2 ^ 16 + ((?x div 2 ^ 8 mod 256) * 2 ^ 8 + ?x mod 2 ^ 8))" .
  have b: "bigEndian (PutUint32 v) = (?x div 2 ^ 24 mod 256) * 2 ^ 24 +
      ((?x div 2 ^ 16 mod 256) * 2 ^ 16 + ((?x div 2 ^ 8 mod 256) * 2 ^ 8 + ?x mod 2 ^ 8))"
    using lt by (simp add: PutUint32_def unat_byte0 unat_drop less_mult_imp_div_less)
  show ?thesis by (simp only: b e [symmetric])
qed

lemma bigEndian_PutUint64: "bigEndian (PutUint64 v) = unat v"
proof -
  let ?x = "unat v"
  have "?x < 2 ^ 64" using unsigned_less [of v, where ?'a = nat] by simp
  then have "?x = ?x mod 2 ^ 64" by simp
  also have "\<dots> = (?x div 2 ^ 56 mod 256) * 2 ^ 56 + ?x mod 2 ^ 56"
    using split_byte [of ?x 56] by simp
  also have "?x mod 2 ^ 56 = (?x div 2 ^ 48 mod 256) * 2 ^ 48 + ?x mod 2 ^ 48"
    using split_byte [of ?x 48] by simp
  also have "?x mod 2 ^ 48 = (?x div 2 ^ 40 mod 256) * 2 ^ 40 + ?x mod 2 ^ 40"
    using split_byte [of ?x 40] by simp
  also have "?x mod 2 ^ 40 = (?x div 2 ^ 32 mod 256) * 2 ^ 32 + ?x mod 2 ^ 32"
    using split_byte [of ?x 32] by simp
  also have "?x mod 2 ^ 32 = (?x div 2 ^ 24 mod 256) * 2 ^ 24 + ?x mod 2 ^ 24"
    using split_byte [of ?x 24] by simp
  also have "?x mod 2 ^ 24 = (?x div 2 ^ 16 mod 256) * 2 ^ 16 + ?x mod 2 ^ 16"
    using split_byte [of ?x 16] by simp
  also have "?x mod 2 ^ 16 = (?x div 2 ^ 8 mod 256) * 2 ^ 8 + ?x mod 2 ^ 8"
    using split_byte [of ?x 8] by simp
  finally show ?thesis
    by (simp add: PutUint64_def unat_byte0 unat_drop)
qed

lemma babyOutput_Encode_eq:
  assumes "wellFormed bo"
  shows "babyOutput_Encode c bo w =
     thenE (serializedBytes c (timeoutTx bo)) (\<lambda>txb.
     thenE (signDescriptorBytes c (signDesc bo)) (\<lambda>sdb.
       Inr (w @ PutUint32 (expiry bo) @ txb @ kidBytes bo @ sdb)))"
  by (cases "serializedBytes c (timeoutTx bo)")
     (simp_all add: babyOutput_Encode_def Serialize_def Write_def kidOutput_Encode_eq [OF assms])

lemma babyOutput_Decode_exact:
  assumes c: "selfDelimited c" and b: "wellFormed bo" and b0: "wellFormed bo0"
    and tx: "serializedBytes c (timeoutTx bo) = Inr txb"
    and sd: "signDescriptorBytes c (signDesc bo) = Inr sdb"
  shows "babyOutput_Decode c bo0 (PutUint32 (expiry bo) @ txb @ kidBytes bo @ sdb @ rest) =
     Inr (bo, rest)"
proof -
  let ?bo1 = "bo0\<lparr>expiry := expiry bo, timeoutTx := timeoutTx bo\<rparr>"
  have e: "Read 4 (PutUint32 (expiry bo) @ txb @ kidBytes bo @ sdb @ rest) =
      Inr (PutUint32 (expiry bo), txb @ kidBytes bo @ sdb @ rest)"
    by (rule Read_exact) simp_all
  have d: "Deserialize c (txb @ kidBytes bo @ sdb @ rest) = Inr (timeoutTx bo, kidBytes bo @ sdb @ rest)"
    using c tx by (simp add: selfDelimited_def)
  have w1: "wellFormed ?bo1" using b0 by (simp add: wellFormed_def)
  have "kidOutput_Decode c ?bo1 (kidBytes bo @ sdb @ rest) = Inr (bo, rest)"
    unfolding kidOutput_Decode_exact [OF c b w1 sd] by simp
  then show ?thesis
    by (simp add: babyOutput_Decode_def e d copy_exact Uint_take Let_def)
qed

lemma readBlob_blob: "length bs < 256 \<Longrightarrow> readBlob (blob bs @ rest) = Inr (bs, rest)"
  by (simp add: blob_def unsigned_of_nat take_bit_nat_eq_self)

lemma sampleCodecs_selfDelimited: "selfDelimited sampleCodecs"
  unfolding selfDelimited_def
proof (intro conjI allI impI)
  fix sd bs rest
  assume "signDescriptorBytes sampleCodecs sd = Inr bs"
  then have l: "length (PkScript (Output sd)) < 256" "length (Opaque sd) < 256"
    and bs: "bs = PutUint64 (Value (Output sd)) @ blob (PkScript (Output sd)) @ blob (Opaque sd)"
    by (auto simp: sampleCodecs_def split: if_splits)
  show "ReadSignDescriptor sampleCodecs (bs @ rest) = Inr (sd, rest)"
    by (simp add: sampleCodecs_def bs readBlob_blob l Uint_take)
next
  fix tx bs rest
  assume "serializedBytes sampleCodecs tx = Inr bs"
  then have e: "TxIn tx = []" "TxOut tx = []"
    and bs: "bs = PutUint32 (Version tx) @ PutUint32 (LockTime tx)"
    by (auto simp: sampleCodecs_def split: if_splits)
  show "Deserialize sampleCodecs (bs @ rest) = Inr (tx, rest)"
    using e by (simp add: sampleCodecs_def bs Uint_take)
qed

section \<open>Properties of the nursery\<close>

text \<open>
  C7 (as amended). One call of \<open>graduateClass\<close> at height \<open>H\<close> calls \<open>PurgeHeight\<close> at most
  once, only if \<open>H\<close> is strictly greater than \<open>PruningDepth\<close>, and then with the argument
  \<open>current_height - PruningDepth\<close> (the subtraction does not wrap). When the call returns
  no error, \<open>PurgeHeight\<close> was called if and only if \<open>H > PruningDepth\<close>.
\<close>

theorem purge_only_past_depth:
  assumes "graduateClass cfg H s = (r, s')"
  shows "\<exists>t. trace s' = trace s @ t \<and>
     (filter isPurgeHeight t = [] \<or>
      (PruningDepth cfg < H \<and>
       filter isPurgeHeight t = [EStore (OpPurgeHeight (currentHeight s' - PruningDepth cfg))] \<and>
       unat (currentHeight s' - PruningDepth cfg) = unat (currentHeight s') - unat (PruningDepth cfg))) \<and>
     (r = Inr () \<longrightarrow> (filter isPurgeHeight t \<noteq> [] \<longleftrightarrow> PruningDepth cfg < H))"
proof -
  from graduateClass_summary [OF assms] obtain t where
    t: "currentHeight s' = H" "trace s' = trace s @ t"
       "outcome cfg H (store s) r (filter key t) (store s')" by auto
  have f: "filter isPurgeHeight t = filter isPurgeHeight (filter key t)"
    by (rule filter_filter_key) (rule isPurge_key)
  have sub: "PruningDepth cfg < H \<Longrightarrow> unat (H - PruningDepth cfg) = unat H - unat (PruningDepth cfg)"
    by (simp add: unat_sub less_imp_le)
  from purge_outcome [OF t(3)] f t(1) sub
  have "(filter isPurgeHeight t = [] \<or>
      (PruningDepth cfg < H \<and>
       filter isPurgeHeight t = [EStore (OpPurgeHeight (currentHeight s' - PruningDepth cfg))] \<and>
       unat (currentHeight s' - PruningDepth cfg) = unat (currentHeight s') - unat (PruningDepth cfg))) \<and>
     (r = Inr () \<longrightarrow> (filter isPurgeHeight t \<noteq> [] \<longleftrightarrow> PruningDepth cfg < H))"
    by metis
  with t(2) show ?thesis by blast
qed

theorem purge_only_past_depth_witness:
  "fst (graduateClass sampleCfg 244 sampleNursery) = Inr () \<and>
   (\<exists>t. trace (snd (graduateClass sampleCfg 244 sampleNursery)) = trace sampleNursery @ t \<and>
        filter isPurgeHeight t = [EStore (OpPurgeHeight 144)])"
proof -
  have r: "fst (graduateClass sampleCfg 244 sampleNursery) = Inr ()"
    by (simp add: sampleCfg_def sampleNursery_def run_defs)
  have h: "currentHeight (snd (graduateClass sampleCfg 244 sampleNursery)) = 244"
    by (simp add: sampleCfg_def sampleNursery_def run_defs)
  have d: "PruningDepth sampleCfg = 100"
    by (simp add: sampleCfg_def)
  have e: "graduateClass sampleCfg 244 sampleNursery =
      (Inr (), snd (graduateClass sampleCfg 244 sampleNursery))"
    using r by (metis prod.collapse)
  from purge_only_past_depth [OF e] r h d show ?thesis
    by auto
qed

text \<open>
  The claim as stated fails: at height 244, above the pruning depth of 100, a broadcaster
  that refuses the sweep makes \<open>graduateClass\<close> return before it reaches the purge.
\<close>

theorem purge_skipped_on_error_counterexample:
  "PruningDepth offlineCfg < 244 \<and>
   fst (graduateClass offlineCfg 244 sampleNursery) = Inl (Err ''connection refused'') \<and>
   filter isPurgeHeight (trace (snd (graduateClass offlineCfg 244 sampleNursery))) = []"
  by (simp add: offlineCfg_def sampleCfg_def sampleNursery_def run_defs)

text \<open>
  C1. A call of \<open>graduateClass\<close> at height \<open>H\<close> calls \<open>FinalizeKinder\<close> at most once, with
  height \<open>H\<close>, and only if \<open>H\<close> is strictly greater than the last finalized height. If
  \<open>H\<close> is at most the last finalized height, the sweep builder is not run and the only
  transaction the call may publish for the class is the one \<open>FetchClass\<close> returned, the
  stored \<open>finalizedTx\<close>. So after any sequence of calls, at any heights, started with an
  empty trace, the sweeps published for class \<open>H\<close> have at most one txid.
\<close>

theorem single_sweep_txid:
  "(\<forall>r s'. graduateClass cfg H s = (r, s') \<longrightarrow>
      (\<exists>t. trace s' = trace s @ t \<and>
         (filter isFinalizeKinder t = [] \<or>
          (lastFinalizedHeight (store s) < H \<and>
           (\<exists>x. filter isFinalizeKinder t = [EStore (OpFinalizeKinder H x)]))) \<and>
         (H \<le> lastFinalizedHeight (store s) \<longrightarrow>
            filter builderEvent t = [] \<and>
            sweeps H t \<subseteq> set_option (finalizedTx (store s) H)))) \<and>
   (trace s0 = [] \<longrightarrow>
      card (TxHash cfg ` sweeps H (trace (graduateClasses cfg epochs s0))) \<le> 1)"
proof (intro conjI allI impI)
  fix r s'
  assume g: "graduateClass cfg H s = (r, s')"
  from graduateClass_summary [OF g] obtain t where
    t: "trace s' = trace s @ t" "outcome cfg H (store s) r (filter key t) (store s')" by auto
  note o = finalize_outcome [OF t(2)]
  have f: "filter isFinalizeKinder (filter key t) = filter isFinalizeKinder t"
    by (rule filter_via_key) (rule isFinalize_key)
  have b: "filter builderEvent (filter key t) = filter builderEvent t"
    by (rule filter_via_key) (rule builderEvent_key)
  have "(filter isFinalizeKinder t = [] \<or>
          (lastFinalizedHeight (store s) < H \<and>
           (\<exists>x. filter isFinalizeKinder t = [EStore (OpFinalizeKinder H x)]))) \<and>
         (H \<le> lastFinalizedHeight (store s) \<longrightarrow>
            filter builderEvent t = [] \<and>
            sweeps H t \<subseteq> set_option (finalizedTx (store s) H))"
    using o unfolding f b sweeps_key [of H t, symmetric] FIN_def by blast
  with t(1) show "\<exists>t. trace s' = trace s @ t \<and>
         (filter isFinalizeKinder t = [] \<or>
          (lastFinalizedHeight (store s) < H \<and>
           (\<exists>x. filter isFinalizeKinder t = [EStore (OpFinalizeKinder H x)]))) \<and>
         (H \<le> lastFinalizedHeight (store s) \<longrightarrow>
            filter builderEvent t = [] \<and>
            sweeps H t \<subseteq> set_option (finalizedTx (store s) H))"
    by blast
next
  assume "trace s0 = []"
  then have "pinned H (store s0) (sweeps H (trace s0))"
    by (auto simp: pinned_def split: option.splits)
  from pinned_card [OF pinned_graduateClasses [OF this]]
  show "card (TxHash cfg ` sweeps H (trace (graduateClasses cfg epochs s0))) \<le> 1" .
qed

theorem single_sweep_txid_witness:
  "244 \<le> lastFinalizedHeight (store finalizedNursery) \<and>
   (\<exists>t. trace (snd (graduateClass sampleCfg 244 finalizedNursery)) = trace finalizedNursery @ t \<and>
        filter isFinalizeKinder t = [] \<and> filter builderEvent t = [] \<and>
        sweeps 244 t \<subseteq> set_option (finalizedTx (store finalizedNursery) 244)) \<and>
   trace sampleNursery = [] \<and>
   card (TxHash sampleCfg ` sweeps 244 (trace (graduateClasses sampleCfg [244, 245, 244] sampleNursery))) \<le> 1"
proof -
  have l: "lastFinalizedHeight (store finalizedNursery) = 244"
    by (rule finalizedNursery_store)
  have e: "trace sampleNursery = []"
    by (simp add: sampleNursery_def)
  have c: "graduateClass sampleCfg 244 finalizedNursery =
      (fst (graduateClass sampleCfg 244 finalizedNursery), snd (graduateClass sampleCfg 244 finalizedNursery))"
    by simp
  note inst = single_sweep_txid [of sampleCfg 244 finalizedNursery sampleNursery "[244, 245, 244]"]
  from inst have "\<forall>r s'. graduateClass sampleCfg 244 finalizedNursery = (r, s') \<longrightarrow>
      (\<exists>t. trace s' = trace finalizedNursery @ t \<and>
         (filter isFinalizeKinder t = [] \<or>
          (lastFinalizedHeight (store finalizedNursery) < 244 \<and>
           (\<exists>x. filter isFinalizeKinder t = [EStore (OpFinalizeKinder 244 x)]))) \<and>
         (244 \<le> lastFinalizedHeight (store finalizedNursery) \<longrightarrow>
            filter builderEvent t = [] \<and>
            sweeps 244 t \<subseteq> set_option (finalizedTx (store finalizedNursery) 244)))"
    by (rule conjunct1)
  from this [rule_format, OF c] l
  have first: "\<exists>t. trace (snd (graduateClass sampleCfg 244 finalizedNursery)) = trace finalizedNursery @ t \<and>
        filter isFinalizeKinder t = [] \<and> filter builderEvent t = [] \<and>
        sweeps 244 t \<subseteq> set_option (finalizedTx (store finalizedNursery) 244)"
    by auto
  from inst e
  have "card (TxHash sampleCfg ` sweeps 244 (trace (graduateClasses sampleCfg [244, 245, 244] sampleNursery))) \<le> 1"
    by blast
  with first l e show ?thesis by simp
qed

text \<open>
  C4. At a height \<open>H\<close> above the last finalized height and with kindergarten outputs, if
  \<open>createSweepTx\<close> returns an error (whichever of the script generator, the sanity check
  or the signer raised it), \<open>graduateClass\<close> returns that error, has not called
  \<open>FinalizeKinder\<close>, and leaves the store as it was: the height stays unfinalized.
\<close>

theorem sweep_failure_leaves_height_unfinalized:
  assumes fetch: "FetchClass cfg H (s\<lparr>currentHeight := H\<rparr>) = (Inr (finalTx, kgtnOutputs, cribOutputs), s1)"
    and last: "LastFinalizedHeight cfg s1 = (Inr lastFinalizedHeight', s2)"
    and new: "H > lastFinalizedHeight'"
    and kids: "kgtnOutputs \<noteq> []"
    and fails: "createSweepTx cfg kgtnOutputs s2 = (Inl err, s3)"
  shows "graduateClass cfg H s = (Inl err, s3) \<and>
         store s3 = store s \<and>
         lastFinalizedHeight (store s3) < H \<and>
         (\<exists>t. trace s3 = trace s @ t \<and> filter isFinalizeKinder t = [])"
proof -
  have g: "graduateClass cfg H s = (Inl err, s3)"
    using assms by (simp add: graduateClass_def bindE_def finalizeClass_def)
  have nf1: "\<not> isFinalizeKinder (EStore (OpFetchClass H))" by simp
  from quietD [OF quiet_FetchClass fetch, of "\<lambda>ev. \<not> isFinalizeKinder ev"] obtain t1 where
    s1: "store s1 = store s" "trace s1 = trace s @ t1" "filter isFinalizeKinder t1 = []"
    by (auto simp: filter_none)
  from quietD [OF quiet_LastFinalizedHeight last, of "\<lambda>ev. \<not> isFinalizeKinder ev"] obtain t2 where
    s2: "store s2 = store s1" "trace s2 = trace s1 @ t2" "filter isFinalizeKinder t2 = []"
    by (auto simp: filter_none)
  from quietD [OF quiet_createSweepTx fails] obtain t3 where
    s3: "store s3 = store s2" "trace s3 = trace s2 @ t3" "list_all builderEvent t3"
    by auto
  from LastFinalizedHeight_result [OF last] s1
  have "lastFinalizedHeight' = lastFinalizedHeight (store s)" by simp
  with new s1 s2 s3 have "lastFinalizedHeight (store s3) < H" by simp
  moreover have "trace s3 = trace s @ (t1 @ t2 @ t3)" using s1 s2 s3 by simp
  moreover have "filter isFinalizeKinder (t1 @ t2 @ t3) = []"
    using s1 s2 s3 by (simp add: finalize_builder)
  ultimately show ?thesis using g s1 s2 s3 by metis
qed

theorem sweep_failure_leaves_height_unfinalized_witness:
  "graduateClass lockedCfg 244 sampleNursery =
     (Inl (Err ''wallet locked''),
      sampleNursery\<lparr>currentHeight := 244,
        trace := [EStore (OpFetchClass 244), EStore OpLastFinalizedHeight, EGenSweepScript]\<rparr>)"
proof -
  let ?s1 = "sampleNursery\<lparr>currentHeight := 244, trace := [EStore (OpFetchClass 244)]\<rparr>"
  let ?s2 = "sampleNursery\<lparr>currentHeight := 244,
        trace := [EStore (OpFetchClass 244), EStore OpLastFinalizedHeight]\<rparr>"
  let ?s3 = "sampleNursery\<lparr>currentHeight := 244,
        trace := [EStore (OpFetchClass 244), EStore OpLastFinalizedHeight, EGenSweepScript]\<rparr>"
  have fetch: "FetchClass lockedCfg 244 (sampleNursery\<lparr>currentHeight := 244\<rparr>) =
      (Inr (None, [sampleKid 0 500000 144], []), ?s1)"
    by (simp add: lockedCfg_def sampleCfg_def sampleNursery_def run_defs)
  have last: "LastFinalizedHeight lockedCfg ?s1 = (Inr 0, ?s2)"
    by (simp add: lockedCfg_def sampleCfg_def sampleNursery_def run_defs)
  have new: "(244 :: uint32) > 0" by simp
  have kids: "[sampleKid 0 500000 144] \<noteq> []" by simp
  have fails: "createSweepTx lockedCfg [sampleKid 0 500000 144] ?s2 = (Inl (Err ''wallet locked''), ?s3)"
    by (simp add: lockedCfg_def sampleCfg_def sampleNursery_def run_defs)
  from sweep_failure_leaves_height_unfinalized [OF fetch last new kids fails]
  show ?thesis by simp
qed

text \<open>
  C8. When \<open>PublishTransaction\<close> returns an error for the finalized sweep, or for a baby
  output's timeout transaction: if the message contains "TX rejected:" the routine
  carries on exactly as after a successful broadcast, so the confirmation is registered;
  otherwise the routine returns that error, having done nothing after the broadcast.
\<close>

theorem publish_rejection_is_soft:
  assumes sweep: "PublishTransaction cfg finalTx (env s) = (Some err, e')"
    and baby: "PublishTransaction cfg (timeoutTx baby) (env s) = (Some err', e'')"
  shows "(if Contains (Error err) ''TX rejected:'' then
            sweepGraduatingKinders cfg H finalTx kids s =
              bindE (registerConf cfg (TxHash cfg finalTx) H) (\<lambda>confChan s.
                (Inr (), emit (EGo_waitForGraduation H kids confChan) s))
                (published (SweepGraduatingKinders H) finalTx e' s) \<and>
            ERegisterConfirmationsNtfn (TxHash cfg finalTx) (ConfDepth cfg) H \<in>
              set (trace (snd (sweepGraduatingKinders cfg H finalTx kids s)))
          else
            sweepGraduatingKinders cfg H finalTx kids s =
              (Inl err, published (SweepGraduatingKinders H) finalTx e' s)) \<and>
         (if Contains (Error err') ''TX rejected:'' then
            sweepCribOutput cfg H baby s =
              bindE (registerConf cfg (Hash (outpoint baby)) H) (\<lambda>confChan s.
                (Inr (), emit (EGo_waitForEnrollment baby confChan) s))
                (published (SweepCribOutput H) (timeoutTx baby) e'' s) \<and>
            ERegisterConfirmationsNtfn (Hash (outpoint baby)) (ConfDepth cfg) H \<in>
              set (trace (snd (sweepCribOutput cfg H baby s)))
          else
            sweepCribOutput cfg H baby s =
              (Inl err', published (SweepCribOutput H) (timeoutTx baby) e'' s))"
  using assms
  by (auto simp: sweepGraduatingKinders_def sweepCribOutput_def publish_def bindE_def call_def
      emit_def published_def registerConf_def split: prod.splits sum.splits)

theorem publish_rejection_is_soft_witness:
  "Contains ''TX rejected: already have transaction'' ''TX rejected:'' \<and>
   \<not> Contains ''connection refused'' ''TX rejected:'' \<and>
   fst (sweepGraduatingKinders pickyCfg 244 (NewMsgTx 2) [] sampleNursery) = Inr () \<and>
   ERegisterConfirmationsNtfn (TxHash pickyCfg (NewMsgTx 2)) (ConfDepth pickyCfg) 244 \<in>
     set (trace (snd (sweepGraduatingKinders pickyCfg 244 (NewMsgTx 2) [] sampleNursery))) \<and>
   sweepCribOutput pickyCfg 244 sampleBaby sampleNursery =
     (Inl (Err ''connection refused''),
      published (SweepCribOutput 244) (timeoutTx sampleBaby) 0 sampleNursery)"
proof -
  have soft: "Contains ''TX rejected: already have transaction'' ''TX rejected:''"
    by code_simp
  have hard: "\<not> Contains ''connection refused'' ''TX rejected:''"
    by code_simp
  have sweep: "PublishTransaction pickyCfg (NewMsgTx 2) (env sampleNursery) =
      (Some (Err ''TX rejected: already have transaction''), 0)"
    by (simp add: pickyCfg_def sampleCfg_def sampleNursery_def NewMsgTx_def)
  have baby: "PublishTransaction pickyCfg (timeoutTx sampleBaby) (env sampleNursery) =
      (Some (Err ''connection refused''), 0)"
    by (simp add: pickyCfg_def sampleCfg_def sampleNursery_def sampleBaby_def makeBabyOutput_def
        NewMsgTx_def AddTxOut_def kidOutput.defs babyOutput.defs)
  have ok: "fst (bindE (registerConf pickyCfg (TxHash pickyCfg (NewMsgTx 2)) 244) (\<lambda>confChan s.
                (Inr (), emit (EGo_waitForGraduation 244 [] confChan) s))
                (published (SweepGraduatingKinders 244) (NewMsgTx 2) 0 sampleNursery)) = Inr ()"
    by (simp add: pickyCfg_def sampleCfg_def sampleNursery_def bindE_def registerConf_def call_def
        emit_def published_def)
  note inst = publish_rejection_is_soft [OF sweep baby, of 244 "[]",
      unfolded Error.simps if_P [OF soft] if_not_P [OF hard]]
  have th: "(sweepGraduatingKinders pickyCfg 244 (NewMsgTx 2) [] sampleNursery =
              bindE (registerConf pickyCfg (TxHash pickyCfg (NewMsgTx 2)) 244) (\<lambda>confChan s.
                (Inr (), emit (EGo_waitForGraduation 244 [] confChan) s))
                (published (SweepGraduatingKinders 244) (NewMsgTx 2) 0 sampleNursery) \<and>
            ERegisterConfirmationsNtfn (TxHash pickyCfg (NewMsgTx 2)) (ConfDepth pickyCfg) 244 \<in>
              set (trace (snd (sweepGraduatingKinders pickyCfg 244 (NewMsgTx 2) [] sampleNursery)))) \<and>
         sweepCribOutput pickyCfg 244 sampleBaby sampleNursery =
              (Inl (Err ''connection refused''),
               published (SweepCribOutput 244) (timeoutTx sampleBaby) 0 sampleNursery)"
    by (rule inst)
  have "fst (sweepGraduatingKinders pickyCfg 244 (NewMsgTx 2) [] sampleNursery) = Inr ()"
    using ok by (simp only: th [THEN conjunct1, THEN conjunct1])
  with th soft hard show ?thesis by blast
qed

text \<open>
  C2. A transaction returned by \<open>sweepCsvSpendableOutputsTxn\<close> has version 2 and exactly
  one output: it pays to the script that \<open>GenSweepScript\<close> has just returned, and its value
  is the sum of the inputs' amounts minus the fee, the weight times the rate the estimator
  returned (in Go's 64-bit arithmetic). It has one input per output given, in order, which
  spends that output's outpoint with the output's \<open>BlocksToMaturity\<close> as sequence number.
\<close>

theorem sweep_tx_shape:
  assumes "sweepCsvSpendableOutputsTxn cfg txWeight inputs s = (Inr sweepTx, s')"
  shows "\<exists>pkScript e1 feePerWeight e2.
     GenSweepScript cfg (env s) = (Inr pkScript, e1) \<and>
     EstimateFeePerWeight cfg 1 e1 = (feePerWeight, e2) \<and>
     Version sweepTx = 2 \<and>
     TxOut sweepTx =
       [\<lparr>Value = sum_list (map amt inputs) - txWeight * feePerWeight, PkScript = pkScript\<rparr>] \<and>
     length (TxIn sweepTx) = length inputs \<and>
     map PreviousOutPoint (TxIn sweepTx) = map outpoint inputs \<and>
     map Sequence (TxIn sweepTx) = map blocksToMaturity inputs"
proof -
  from sweepCsv_result [OF assms] obtain pkScript e1 feePerWeight e2 where
    r: "GenSweepScript cfg (env s) = (Inr pkScript, e1)"
       "EstimateFeePerWeight cfg 1 e1 = (feePerWeight, e2)"
       "Version sweepTx = 2"
       "TxOut sweepTx = [\<lparr>Value = totalSum inputs - txWeight * feePerWeight, PkScript = pkScript\<rparr>]"
       "map PreviousOutPoint (TxIn sweepTx) = map outpoint inputs"
       "map Sequence (TxIn sweepTx) = map blocksToMaturity inputs"
    by blast
  from r(5) have "length (TxIn sweepTx) = length inputs"
    by (rule map_eq_imp_length_eq)
  with r show ?thesis by (auto simp: totalSum_eq)
qed

theorem sweep_tx_shape_witness:
  "fst (sweepCsvSpendableOutputsTxn sampleCfg 486 [sampleKid 0 500000 144] sampleNursery) =
     Inr sampleSweep \<and>
   Version sampleSweep = 2 \<and>
   map Value (TxOut sampleSweep) = [500000 - 486 * 10] \<and>
   length (TxIn sampleSweep) = 1 \<and>
   map Sequence (TxIn sampleSweep) = [blocksToMaturity (sampleKid 0 500000 144)]"
proof -
  have r: "fst (sweepCsvSpendableOutputsTxn sampleCfg 486 [sampleKid 0 500000 144] sampleNursery) =
      Inr sampleSweep"
    by (simp add: sampleCfg_def sampleNursery_def sampleSweep_def run_defs)
  then have e: "sweepCsvSpendableOutputsTxn sampleCfg 486 [sampleKid 0 500000 144] sampleNursery =
      (Inr sampleSweep,
       snd (sweepCsvSpendableOutputsTxn sampleCfg 486 [sampleKid 0 500000 144] sampleNursery))"
    by (metis prod.collapse)
  have g: "GenSweepScript sampleCfg (env sampleNursery) = (Inr [0, 20, 0], 1)"
    by (simp add: sampleCfg_def sampleNursery_def)
  have f: "EstimateFeePerWeight sampleCfg 1 1 = (10, 1)"
    by (simp add: sampleCfg_def)
  have a: "sum_list (map amt [sampleKid 0 500000 144]) = 500000"
    by (simp add: sampleKid_def)
  from sweep_tx_shape [OF e] g f a r show ?thesis
    by auto
qed




text \<open>
  C5. The weight that \<open>createSweepTx\<close> estimates is the specification's: four times the base
  size, plus the witness header, plus for each accepted input four times the input size
  and the witness weight of its type. The value of the output of the sweep is the sum of
  the accepted amounts minus this weight times the estimator's rate (64-bit arithmetic,
  which wraps as Go's does).
\<close>

theorem sweep_weight_and_fee:
  "fst (gatherInputs cfg kgtnOutputs (4 * BaseSweepTxSize cfg + WitnessHeaderSize cfg) [] s) =
     (specWeight cfg (filter (recognized cfg) kgtnOutputs), filter (recognized cfg) kgtnOutputs) \<and>
   (\<forall>sweepTx s'. createSweepTx cfg kgtnOutputs s = (Inr sweepTx, s') \<longrightarrow>
      (\<exists>pkScript e1 feePerWeight e2.
         GenSweepScript cfg (env s) = (Inr pkScript, e1) \<and>
         EstimateFeePerWeight cfg 1 e1 = (feePerWeight, e2) \<and>
         map Value (TxOut sweepTx) =
           [sum_list (map amt (filter (recognized cfg) kgtnOutputs)) -
            specWeight cfg (filter (recognized cfg) kgtnOutputs) * feePerWeight]))"
proof (intro conjI allI impI)
  show "fst (gatherInputs cfg kgtnOutputs (4 * BaseSweepTxSize cfg + WitnessHeaderSize cfg) [] s) =
     (specWeight cfg (filter (recognized cfg) kgtnOutputs), filter (recognized cfg) kgtnOutputs)"
    by (simp add: gatherInputs_eq specWeight_def)
next
  fix sweepTx s'
  assume "createSweepTx cfg kgtnOutputs s = (Inr sweepTx, s')"
  then have "sweepCsvSpendableOutputsTxn cfg (specWeight cfg (filter (recognized cfg) kgtnOutputs))
      (filter (recognized cfg) kgtnOutputs) (warned (warnings cfg kgtnOutputs) s) = (Inr sweepTx, s')"
    by (simp add: createSweepTx_def gatherInputs_eq specWeight_def)
  from sweepCsv_result [OF this]
  show "\<exists>pkScript e1 feePerWeight e2.
         GenSweepScript cfg (env s) = (Inr pkScript, e1) \<and>
         EstimateFeePerWeight cfg 1 e1 = (feePerWeight, e2) \<and>
         map Value (TxOut sweepTx) =
           [sum_list (map amt (filter (recognized cfg) kgtnOutputs)) -
            specWeight cfg (filter (recognized cfg) kgtnOutputs) * feePerWeight]"
    by (auto simp: totalSum_eq warned_def)
qed

theorem sweep_weight_and_fee_witness:
  "specWeight sampleCfg (filter (recognized sampleCfg) sampleClass) = 893 \<and>
   fst (fst (gatherInputs sampleCfg sampleClass
     (4 * BaseSweepTxSize sampleCfg + WitnessHeaderSize sampleCfg) [] sampleNursery)) = 893 \<and>
   isl (fst (createSweepTx sampleCfg sampleClass sampleNursery)) = False \<and>
   map Value (TxOut (projr (fst (createSweepTx sampleCfg sampleClass sampleNursery)))) =
     [530000 - 893 * 10]"
proof -
  have f: "filter (recognized sampleCfg) sampleClass = [sampleKid 0 500000 144, sampleKid 5 30000 80]"
    by (simp add: recognized_def sampleCfg_def sampleClass_def sampleKid_def makeKidOutput_def
        makeBreachedOutput_def kidOutput.defs breachedOutput.defs)
  have sw: "specWeight sampleCfg [sampleKid 0 500000 144, sampleKid 5 30000 80] = 893"
    by (simp add: specWeight_def witnessWeight_def sampleCfg_def sampleKid_def makeKidOutput_def
        makeBreachedOutput_def kidOutput.defs breachedOutput.defs)
  have a: "sum_list (map amt [sampleKid 0 500000 144, sampleKid 5 30000 80]) = 530000"
    by (simp add: sampleKid_def)
  have ok: "isl (fst (createSweepTx sampleCfg sampleClass sampleNursery)) = False"
    by (simp add: sampleCfg_def sampleNursery_def sampleClass_def run_defs)
  then have e: "createSweepTx sampleCfg sampleClass sampleNursery =
      (Inr (projr (fst (createSweepTx sampleCfg sampleClass sampleNursery))),
       snd (createSweepTx sampleCfg sampleClass sampleNursery))"
    by (metis prod.collapse sum.collapse(2))
  have g: "GenSweepScript sampleCfg (env sampleNursery) = (Inr [0, 20, 0], 1)"
    by (simp add: sampleCfg_def sampleNursery_def)
  have r: "EstimateFeePerWeight sampleCfg 1 1 = (10, 1)"
    by (simp add: sampleCfg_def)
  note inst = sweep_weight_and_fee [of sampleCfg sampleClass sampleNursery]
  from inst have w: "fst (fst (gatherInputs sampleCfg sampleClass
     (4 * BaseSweepTxSize sampleCfg + WitnessHeaderSize sampleCfg) [] sampleNursery)) = 893"
    by (simp add: f sw)
  from inst [THEN conjunct2, rule_format, OF e, unfolded f sw a] g r
  have "map Value (TxOut (projr (fst (createSweepTx sampleCfg sampleClass sampleNursery)))) =
     [530000 - 893 * 10]"
    by auto
  with w ok f sw show ?thesis by simp
qed

text \<open>
  C6. \<open>IncubateOutputs\<close> builds the commitment kid output if and only if the sign descriptor
  of the to-self output is present and its amount is strictly positive; it builds one baby
  output for each HTLC resolution of strictly positive amount, in order. When there is
  neither, it only marks the channel fully closed in the channel database and returns
  what that call returns: the nursery store is not called. Otherwise its first call is
  \<open>Store.Incubate\<close>, on exactly these outputs, and it does not mark the channel closed.
\<close>

theorem incubate_builds_positive_outputs:
  "(selfOutput cfg closeSummary \<noteq> None) =
     (\<exists>sd. SelfOutputSignDesc closeSummary = Some sd \<and> positive sd) \<and>
   (\<forall>sd. SelfOutputSignDesc closeSummary = Some sd \<and> positive sd \<longrightarrow>
      selfOutput cfg closeSummary =
        Some (makeKidOutput (SelfOutpoint closeSummary) (ChanPoint closeSummary)
                (SelfOutputMaturity closeSummary) (CommitmentTimeLock cfg) sd)) \<and>
   htlcOutputs cfg closeSummary (HtlcResolutions closeSummary) [] =
     map (babyOf cfg closeSummary)
       (filter (\<lambda>htlcRes. positive (SweepSignDesc htlcRes)) (HtlcResolutions closeSummary)) \<and>
   (if selfOutput cfg closeSummary = None \<and>
       htlcOutputs cfg closeSummary (HtlcResolutions closeSummary) [] = []
    then
      IncubateOutputs cfg closeSummary s =
        orFail (call (EMarkChanFullyClosed (ChanPoint closeSummary))
                  (MarkChanFullyClosed cfg (ChanPoint closeSummary)) s) \<and>
      store (snd (IncubateOutputs cfg closeSummary s)) = store s \<and>
      trace (snd (IncubateOutputs cfg closeSummary s)) =
        trace s @ [EMarkChanFullyClosed (ChanPoint closeSummary)]
    else
      (\<exists>t. trace (snd (IncubateOutputs cfg closeSummary s)) =
            trace s @ EStore (OpIncubate (selfOutput cfg closeSummary)
                 (htlcOutputs cfg closeSummary (HtlcResolutions closeSummary) [])) # t \<and>
           filter isStoreCall t = [] \<and>
           EMarkChanFullyClosed (ChanPoint closeSummary) \<notin> set t))"
proof (intro conjI)
  show "(selfOutput cfg closeSummary \<noteq> None) =
     (\<exists>sd. SelfOutputSignDesc closeSummary = Some sd \<and> positive sd)"
    by (auto simp: selfOutput_eq split: option.splits)
  show "\<forall>sd. SelfOutputSignDesc closeSummary = Some sd \<and> positive sd \<longrightarrow>
      selfOutput cfg closeSummary =
        Some (makeKidOutput (SelfOutpoint closeSummary) (ChanPoint closeSummary)
                (SelfOutputMaturity closeSummary) (CommitmentTimeLock cfg) sd)"
    by (auto simp: selfOutput_eq)
  show "htlcOutputs cfg closeSummary (HtlcResolutions closeSummary) [] =
     map (babyOf cfg closeSummary)
       (filter (\<lambda>htlcRes. positive (SweepSignDesc htlcRes)) (HtlcResolutions closeSummary))"
    by (simp add: htlcOutputs_eq)
  show "if selfOutput cfg closeSummary = None \<and>
       htlcOutputs cfg closeSummary (HtlcResolutions closeSummary) [] = []
    then
      IncubateOutputs cfg closeSummary s =
        orFail (call (EMarkChanFullyClosed (ChanPoint closeSummary))
                  (MarkChanFullyClosed cfg (ChanPoint closeSummary)) s) \<and>
      store (snd (IncubateOutputs cfg closeSummary s)) = store s \<and>
      trace (snd (IncubateOutputs cfg closeSummary s)) =
        trace s @ [EMarkChanFullyClosed (ChanPoint closeSummary)]
    else
      (\<exists>t. trace (snd (IncubateOutputs cfg closeSummary s)) =
            trace s @ EStore (OpIncubate (selfOutput cfg closeSummary)
                 (htlcOutputs cfg closeSummary (HtlcResolutions closeSummary) [])) # t \<and>
           filter isStoreCall t = [] \<and>
           EMarkChanFullyClosed (ChanPoint closeSummary) \<notin> set t)"
  proof (cases "selfOutput cfg closeSummary = None \<and>
       htlcOutputs cfg closeSummary (HtlcResolutions closeSummary) [] = []")
    case True
    then show ?thesis
      by (auto simp: IncubateOutputs_def Let_def orFail_def call_def emit_def
          split: prod.splits option.splits)
  next
    case False
    then show ?thesis
      by (auto simp: IncubateOutputs_def Let_def Incubate_def storeCall_def orFail_def call_def
          emit_def bindE_def ret_def registerConf_def split: prod.splits option.splits sum.splits)
  qed
qed

theorem incubate_builds_positive_outputs_witness:
  "SelfOutputSignDesc sampleSummary = Some (sampleDesc 500000) \<and> positive (sampleDesc 500000) \<and>
   selfOutput sampleCfg sampleSummary =
     Some (makeKidOutput (SelfOutpoint sampleSummary) (ChanPoint sampleSummary)
             (SelfOutputMaturity sampleSummary) (CommitmentTimeLock sampleCfg) (sampleDesc 500000)) \<and>
   htlcOutputs sampleCfg sampleSummary (HtlcResolutions sampleSummary) [] =
     [babyOf sampleCfg sampleSummary (sampleResolution 30000)] \<and>
   selfOutput sampleCfg dustSummary = None \<and>
   htlcOutputs sampleCfg dustSummary (HtlcResolutions dustSummary) [] = [] \<and>
   store (snd (IncubateOutputs sampleCfg dustSummary sampleNursery)) = store sampleNursery \<and>
   trace (snd (IncubateOutputs sampleCfg dustSummary sampleNursery)) =
     [EMarkChanFullyClosed (ChanPoint dustSummary)]"
proof -
  have d: "SelfOutputSignDesc sampleSummary = Some (sampleDesc 500000)"
    by (simp add: sampleSummary_def)
  have p: "positive (sampleDesc 500000)"
    by (simp add: positive_def sampleDesc_def)
  have n: "\<not> positive (sampleDesc 0)"
    by (simp add: positive_def sampleDesc_def)
  have f: "filter (\<lambda>htlcRes. positive (SweepSignDesc htlcRes)) (HtlcResolutions sampleSummary) =
      [sampleResolution 30000]"
    by (simp add: sampleSummary_def sampleResolution_def positive_def sampleDesc_def)
  have fd: "filter (\<lambda>htlcRes. positive (SweepSignDesc htlcRes)) (HtlcResolutions dustSummary) = []"
    by (simp add: dustSummary_def sampleSummary_def sampleResolution_def positive_def sampleDesc_def)
  have dd: "SelfOutputSignDesc dustSummary = None"
    by (simp add: dustSummary_def)
  have t0: "trace sampleNursery = []"
    by (simp add: sampleNursery_def)
  note full = incubate_builds_positive_outputs [of sampleCfg sampleSummary sampleNursery]
  note dust = incubate_builds_positive_outputs [of sampleCfg dustSummary sampleNursery]
  from full d p have k: "selfOutput sampleCfg sampleSummary =
     Some (makeKidOutput (SelfOutpoint sampleSummary) (ChanPoint sampleSummary)
             (SelfOutputMaturity sampleSummary) (CommitmentTimeLock sampleCfg) (sampleDesc 500000))"
    by blast
  from full f have b: "htlcOutputs sampleCfg sampleSummary (HtlcResolutions sampleSummary) [] =
     [babyOf sampleCfg sampleSummary (sampleResolution 30000)]"
    by simp
  from dust dd have kd: "selfOutput sampleCfg dustSummary = None"
    by simp
  from dust fd have bd: "htlcOutputs sampleCfg dustSummary (HtlcResolutions dustSummary) [] = []"
    by simp
  have c: "selfOutput sampleCfg dustSummary = None \<and>
      htlcOutputs sampleCfg dustSummary (HtlcResolutions dustSummary) [] = []"
    using kd bd by (rule conjI)
  note closed = dust [THEN conjunct2, THEN conjunct2, THEN conjunct2, unfolded if_P [OF c],
      THEN conjunct2, unfolded t0 append_Nil]
  have "store (snd (IncubateOutputs sampleCfg dustSummary sampleNursery)) = store sampleNursery \<and>
   trace (snd (IncubateOutputs sampleCfg dustSummary sampleNursery)) =
     [EMarkChanFullyClosed (ChanPoint dustSummary)]"
    by (rule closed)
  with d p k b kd bd show ?thesis by blast
qed

text \<open>
  C10. The baby outputs of \<open>IncubateOutputs\<close> correspond, in order, to the HTLC resolutions
  of positive amount; each has the outpoint (hash of the resolution's signed timeout
  transaction, index 0), carries that transaction and the resolution's expiry, and has
  the summary's \<open>SelfOutputMaturity\<close>, the CSV delay of the commitment output, as its
  blocks to maturity.
\<close>

theorem baby_outpoint_and_maturity:
  "list_all2
     (\<lambda>baby htlcRes.
        outpoint baby = \<lparr>Hash = TxHash cfg (SignedTimeoutTx htlcRes), Index = 0\<rparr> \<and>
        blocksToMaturity baby = SelfOutputMaturity closeSummary \<and>
        timeoutTx baby = SignedTimeoutTx htlcRes \<and> expiry baby = Expiry htlcRes)
     (htlcOutputs cfg closeSummary (HtlcResolutions closeSummary) [])
     (filter (\<lambda>htlcRes. sint (Value (Output (SweepSignDesc htlcRes))) > 0)
        (HtlcResolutions closeSummary))"
  by (simp add: htlcOutputs_eq list_all2_map1 babyOf_def positive_def list_all2_same)

text \<open>
  C9. With self-delimited codecs for the sign descriptor and the timeout transaction,
  decoding the bytes that \<open>Encode\<close> wrote for a well-formed kid output gives back that
  output, in every field, whatever the receiver held and whatever follows the bytes; the
  same holds for a baby output. The bytes are the fields in the specified order: amount,
  outpoint, origin channel point, blocks to maturity, confirmation height, witness type,
  sign descriptor, after the expiry and the timeout transaction for a baby; and the
  bytes of each integer denote it with the most significant byte first.
\<close>

theorem codec_roundtrip:
  fixes k k0 :: kidOutput and bo bo0 :: babyOutput
  assumes "selfDelimited c"
  shows "(wellFormed k \<and> wellFormed k0 \<and> kidOutput_Encode c k [] = Inr bs \<longrightarrow>
            kidOutput_Decode c k0 (bs @ rest) = Inr (k, rest) \<and>
            (\<exists>sdb. signDescriptorBytes c (signDesc k) = Inr sdb \<and>
               bs = PutUint64 (amt k) @ outpointBytes (outpoint k) @
                    outpointBytes (originChanPoint k) @ PutUint32 (blocksToMaturity k) @
                    PutUint32 (confHeight k) @ PutUint16 (witnessType k) @ sdb)) \<and>
         (wellFormed bo \<and> wellFormed bo0 \<and> babyOutput_Encode c bo [] = Inr bs' \<longrightarrow>
            babyOutput_Decode c bo0 (bs' @ rest) = Inr (bo, rest) \<and>
            (\<exists>txb sdb. serializedBytes c (timeoutTx bo) = Inr txb \<and>
               signDescriptorBytes c (signDesc bo) = Inr sdb \<and>
               bs' = PutUint32 (expiry bo) @ txb @ kidBytes bo @ sdb)) \<and>
         (\<forall>v16 v32 v64.
            bigEndian (PutUint16 v16) = unat v16 \<and> bigEndian (PutUint32 v32) = unat v32 \<and>
            bigEndian (PutUint64 v64) = unat v64)"
proof (intro conjI impI allI)
  assume a: "wellFormed k \<and> wellFormed k0 \<and> kidOutput_Encode c k [] = Inr bs"
  then obtain sdb where sdb: "signDescriptorBytes c (signDesc k) = Inr sdb" "bs = kidBytes k @ sdb"
    by (cases "signDescriptorBytes c (signDesc k)") (auto simp: kidOutput_Encode_eq)
  from kidOutput_Decode_exact [OF assms _ _ sdb(1), of k0 rest] a sdb(2)
  show "kidOutput_Decode c k0 (bs @ rest) = Inr (k, rest)"
    by simp
  from sdb show "\<exists>sdb. signDescriptorBytes c (signDesc k) = Inr sdb \<and>
               bs = PutUint64 (amt k) @ outpointBytes (outpoint k) @
                    outpointBytes (originChanPoint k) @ PutUint32 (blocksToMaturity k) @
                    PutUint32 (confHeight k) @ PutUint16 (witnessType k) @ sdb"
    by (simp add: kidBytes_def)
next
  assume a: "wellFormed bo \<and> wellFormed bo0 \<and> babyOutput_Encode c bo [] = Inr bs'"
  then obtain txb sdb where bytes: "serializedBytes c (timeoutTx bo) = Inr txb"
      "signDescriptorBytes c (signDesc bo) = Inr sdb" "bs' = PutUint32 (expiry bo) @ txb @ kidBytes bo @ sdb"
    by (cases "serializedBytes c (timeoutTx bo)"; cases "signDescriptorBytes c (signDesc bo)")
       (auto simp: babyOutput_Encode_eq)
  from babyOutput_Decode_exact [OF assms _ _ bytes(1,2), of bo0 rest] a bytes(3)
  show "babyOutput_Decode c bo0 (bs' @ rest) = Inr (bo, rest)"
    by simp
  from bytes show "\<exists>txb sdb. serializedBytes c (timeoutTx bo) = Inr txb \<and>
               signDescriptorBytes c (signDesc bo) = Inr sdb \<and>
               bs' = PutUint32 (expiry bo) @ txb @ kidBytes bo @ sdb"
    by simp
next
  fix v16 :: uint16 and v32 :: uint32 and v64 :: uint64
  show "bigEndian (PutUint16 v16) = unat v16" by (rule bigEndian_PutUint16)
  show "bigEndian (PutUint32 v32) = unat v32" by (rule bigEndian_PutUint32)
  show "bigEndian (PutUint64 v64) = unat v64" by (rule bigEndian_PutUint64)
qed

theorem codec_roundtrip_witness:
  "selfDelimited sampleCodecs \<and>
   wellFormed (sampleKid 0 500000 144) \<and> wellFormed zeroKid \<and>
   kidOutput_Encode sampleCodecs (sampleKid 0 500000 144) [] =
     Inr (kidBytes (sampleKid 0 500000 144) @ sampleDescBytes 500000) \<and>
   kidOutput_Decode sampleCodecs zeroKid
     (kidBytes (sampleKid 0 500000 144) @ sampleDescBytes 500000 @ [7, 7]) =
     Inr (sampleKid 0 500000 144, [7, 7]) \<and>
   wellFormed timedBaby \<and> wellFormed zeroBaby \<and>
   babyOutput_Encode sampleCodecs timedBaby [] =
     Inr (PutUint32 200 @ (PutUint32 1 @ PutUint32 0) @ kidBytes timedBaby @ sampleDescBytes 30000) \<and>
   babyOutput_Decode sampleCodecs zeroBaby
     (PutUint32 200 @ (PutUint32 1 @ PutUint32 0) @ kidBytes timedBaby @ sampleDescBytes 30000) =
     Inr (timedBaby, []) \<and>
   PutUint32 200 = [0, 0, 0, 200] \<and> bigEndian (PutUint32 200) = 200"
proof -
  let ?k = "sampleKid 0 500000 144"
  have wk: "wellFormed ?k"
    by (simp add: wellFormed_def sampleKid_def makeKidOutput_def makeBreachedOutput_def
        kidOutput.defs breachedOutput.defs)
  have wz: "wellFormed zeroKid"
    by (simp add: wellFormed_def zeroKid_def makeKidOutput_def makeBreachedOutput_def
        kidOutput.defs breachedOutput.defs)
  have wb: "wellFormed timedBaby"
    by (simp add: wellFormed_def timedBaby_def sampleKid_def makeKidOutput_def
        makeBreachedOutput_def kidOutput.defs breachedOutput.defs)
  have wzb: "wellFormed zeroBaby"
    by (simp add: wellFormed_def zeroBaby_def zeroKid_def makeKidOutput_def
        makeBreachedOutput_def kidOutput.defs breachedOutput.defs)
  have ek: "kidOutput_Encode sampleCodecs ?k [] = Inr (kidBytes ?k @ sampleDescBytes 500000)"
    by (subst kidOutput_Encode_eq [OF wk])
       (simp add: sampleCodecs_def sampleDescBytes_def sampleKid_def
        makeKidOutput_def makeBreachedOutput_def kidOutput.defs breachedOutput.defs)
  have eb: "babyOutput_Encode sampleCodecs timedBaby [] =
     Inr (PutUint32 200 @ (PutUint32 1 @ PutUint32 0) @ kidBytes timedBaby @ sampleDescBytes 30000)"
    by (subst babyOutput_Encode_eq [OF wb])
       (simp add: sampleCodecs_def sampleDescBytes_def timedBaby_def
        sampleKid_def makeKidOutput_def makeBreachedOutput_def NewMsgTx_def
        kidOutput.defs breachedOutput.defs babyOutput.defs)
  note inst = codec_roundtrip [OF sampleCodecs_selfDelimited,
      of ?k zeroKid "kidBytes ?k @ sampleDescBytes 500000" "[7, 7]" timedBaby zeroBaby
         "PutUint32 200 @ (PutUint32 1 @ PutUint32 0) @ kidBytes timedBaby @ sampleDescBytes 30000"]
  from inst wk wz ek have dk: "kidOutput_Decode sampleCodecs zeroKid
     ((kidBytes ?k @ sampleDescBytes 500000) @ [7, 7]) = Inr (?k, [7, 7])"
    by blast
  note instb = codec_roundtrip [OF sampleCodecs_selfDelimited,
      of ?k zeroKid "kidBytes ?k @ sampleDescBytes 500000" "[]" timedBaby zeroBaby
         "PutUint32 200 @ (PutUint32 1 @ PutUint32 0) @ kidBytes timedBaby @ sampleDescBytes 30000"]
  from instb wb wzb eb have db: "babyOutput_Decode sampleCodecs zeroBaby
     ((PutUint32 200 @ (PutUint32 1 @ PutUint32 0) @ kidBytes timedBaby @ sampleDescBytes 30000) @ []) =
     Inr (timedBaby, [])"
    by blast
  from inst have be: "bigEndian (PutUint32 200) = unat (200 :: uint32)"
    by blast
  have p: "PutUint32 200 = [0, 0, 0, 200]"
    by (simp add: PutUint32_def drop_bit_eq_div)
  from sampleCodecs_selfDelimited wk wz ek dk wb wzb eb db be p show ?thesis
    by (simp del: bigEndian.simps)
qed

end
